theory Spec2Isabelle
  imports Main
begin

section \<open>Values handled by the chain module\<close>

text \<open>
  The module under verification is the class \<open>Chain\<close> (blocks/chain.js): saveGenesisBlock,
  saveBlock, afterSave, deleteBlock, applyGenesisBlock, applyTransaction, the steps of
  applyBlock, popLastBlock and deleteLastBlock.

  An error value travelling through a callback or a promise rejection is either a string,
  an \<open>Error\<close> object (with its \<open>name\<close> and \<open>message\<close>), or the plain object
  \<open>{ message, transaction, block }\<close> that applyGenesisBlock and applyTransaction build
  (only its message text is kept).
\<close>

datatype reason = ErrString string | ErrObject string string | ErrPlain string

text \<open>
  \<open>if (err)\<close> on a callback's first argument: \<open>null\<close>/\<open>undefined\<close> and the empty
  string are falsy, every other string and every object is truthy.
\<close>

fun isError :: "reason option \<Rightarrow> bool" where
  "isError None = False"
| "isError (Some (ErrString s)) = (s \<noteq> [])"
| "isError (Some (ErrObject n m)) = True"
| "isError (Some (ErrPlain m)) = True"

text \<open>
  The value of \<open>err\<close> in the branch \<open>if (err)\<close> takes: \<open>Some\<close> of the error when it
  is truthy, \<open>None\<close> when the branch is skipped.
\<close>

definition truthy :: "reason option \<Rightarrow> reason option" where
  "truthy err = (if isError err then err else None)"

text \<open>\<open>reason.name\<close>: \<open>undefined\<close> on a string and on the plain object.\<close>

fun reason_name :: "reason \<Rightarrow> string option" where
  "reason_name (ErrString s) = None"
| "reason_name (ErrObject n m) = Some n"
| "reason_name (ErrPlain m) = None"

text \<open>
  String conversion inside a template literal \<open>${err}\<close>: a string is itself, an
  \<open>Error\<close> prints as Error.prototype.toString does, a plain object as
  \<open>[object Object]\<close>, \<open>null\<close> as \<open>null\<close>.
\<close>

fun interp :: "reason option \<Rightarrow> string" where
  "interp None = ''null''"
| "interp (Some (ErrString s)) = s"
| "interp (Some (ErrObject n m)) =
     (if n = [] then m else if m = [] then n else n @ '': '' @ m)"
| "interp (Some (ErrPlain m)) = ''[object Object]''"

text \<open>
  Modelled from the spec: helpers/transaction_types.js is not part of the sources; the spec
  gives the type of a transaction as an enumeration with at least \<open>TRANSFER\<close>,
  \<open>VOTE\<close> and further application types.
\<close>

datatype tx_type = TRANSFER | VOTE | OTHER nat

record transaction =
  t_id :: string
  t_type :: tx_type
  senderPublicKey :: string
  blockId :: "string option"
  amount :: int

record block =
  b_id :: string
  height :: nat
  previousBlock :: "string option"
  transactions :: "transaction list"

text \<open>
  Blocks are JavaScript objects: the Last-Block Register, the argument of applyBlock and
  the local variables of deleteLastBlock and popLastBlock hold references, and the code
  mutates the objects in place (saveBlock writes \<open>blockId\<close> into every transaction,
  applyGenesisBlock sorts and popLastBlock and deleteLastBlock reverse the
  \<open>transactions\<close> array). Block objects therefore live in a store, addressed by
  references; \<open>lim\<close> is the next unused reference.
\<close>

type_synonym ref = nat

datatype bus_message = transactionsSaved "transaction list" | newBlock ref

datatype level = Trace | Debug | Info | Warn | Error

datatype log_arg =
    LText string
  | LNum nat
  | LErr "reason option"
  | LStack reason
  | LTx transaction
  | LBlock block

datatype 'r outcome = Callback 'r | ProcessExit

text \<open>
  The state the module works on. \<open>bus\<close>, \<open>logger\<close> and \<open>signals\<close> record, oldest
  first, what the module passed to library.bus.message, library.logger and
  process.emit. \<open>db\<close> is everything the persistence layer stores, \<open>mem\<close> the
  in-memory state of the collaborating modules (transaction pool, rounds).
\<close>

text \<open>
  Modelled from the spec: modules.blocks is not part of the sources. The Last-Block
  Register is a single slot with \<open>get()\<close> and \<open>set(block)\<close>, here the field
  \<open>lastBlock\<close> holding the reference of the block object; Is-Active is a boolean,
  the field \<open>isActive\<close>.
\<close>

record ('d, 'm) world =
  heap :: "ref \<Rightarrow> block"
  lim :: ref
  lastBlock :: ref
  isActive :: bool
  bus :: "bus_message list"
  logger :: "(level \<times> log_arg list) list"
  signals :: "string list"
  db :: 'd
  mem :: 'm

text \<open>
  The collaborators of the module are not part of the sources: they are parameters.
  Each is a function on the collaborators' state \<open>(db, mem)\<close>. A callback-style
  function returns the \<open>err\<close> it passes to its callback (\<open>None\<close> for \<open>null\<close>), with
  the value it passes beside it; a promise-style function of the persistence layer
  returns \<open>Inl\<close> of the rejection reason or \<open>Inr\<close> of the value it resolves with.
  The lookups (\<open>getGenesisBlockId\<close>, \<open>getAccount\<close>, \<open>loadBlocksPart\<close>) read the
  state and leave it as it is. \<open>genesisblock\<close> is the object
  library.genesisblock.block; \<open>Array_sort\<close> is Array.prototype.sort of the JavaScript
  engine, given the compare function.
\<close>

record ('a, 'd, 'm) modules =
  genesisblock :: ref
  Array_sort :: "(transaction \<Rightarrow> transaction \<Rightarrow> int) \<Rightarrow> transaction list \<Rightarrow> transaction list"
  db_blocks_getGenesisBlockId :: "string \<Rightarrow> 'd \<times> 'm \<Rightarrow> reason + string list"
  db_blocks_save :: "block \<Rightarrow> 'd \<times> 'm \<Rightarrow> (reason + unit) \<times> 'd \<times> 'm"
  db_transactions_save :: "transaction list \<Rightarrow> 'd \<times> 'm \<Rightarrow> (reason + unit) \<times> 'd \<times> 'm"
  db_blocks_deleteBlock :: "string \<Rightarrow> 'd \<times> 'm \<Rightarrow> (reason + unit) \<times> 'd \<times> 'm"
  logic_transaction_afterSave :: "transaction \<Rightarrow> 'd \<times> 'm \<Rightarrow> reason option \<times> 'd \<times> 'm"
  accounts_setAccountAndGet :: "string \<Rightarrow> 'd \<times> 'm \<Rightarrow> (reason option \<times> 'a) \<times> 'd \<times> 'm"
  accounts_getAccount :: "string \<Rightarrow> 'd \<times> 'm \<Rightarrow> reason option \<times> 'a"
  transactions_undoUnconfirmedList :: "'d \<times> 'm \<Rightarrow> reason option \<times> 'd \<times> 'm"
  transactions_applyUnconfirmed :: "transaction \<Rightarrow> 'a \<Rightarrow> 'd \<times> 'm \<Rightarrow> reason option \<times> 'd \<times> 'm"
  transactions_apply :: "transaction \<Rightarrow> block \<Rightarrow> 'a \<Rightarrow> 'd \<times> 'm \<Rightarrow> reason option \<times> 'd \<times> 'm"
  transactions_undo :: "transaction \<Rightarrow> block \<Rightarrow> 'a \<Rightarrow> 'd \<times> 'm \<Rightarrow> reason option \<times> 'd \<times> 'm"
  transactions_undoUnconfirmed :: "transaction \<Rightarrow> 'd \<times> 'm \<Rightarrow> reason option \<times> 'd \<times> 'm"
  transactions_removeUnconfirmedTransaction :: "string \<Rightarrow> 'd \<times> 'm \<Rightarrow> 'd \<times> 'm"
  transactions_receiveTransactions :: "transaction list \<Rightarrow> bool \<Rightarrow> 'd \<times> 'm \<Rightarrow> reason option \<times> 'd \<times> 'm"
  rounds_tick :: "block \<Rightarrow> 'd \<times> 'm \<Rightarrow> reason option \<times> 'd \<times> 'm"
  rounds_backwardTick :: "block \<Rightarrow> block \<Rightarrow> 'd \<times> 'm \<Rightarrow> reason option \<times> 'd \<times> 'm"
  blocks_utils_loadBlocksPart :: "string option \<Rightarrow> 'd \<times> 'm \<Rightarrow> reason option \<times> block list"

section \<open>Plumbing\<close>

definition call :: "('d \<times> 'm \<Rightarrow> 'r \<times> 'd \<times> 'm) \<Rightarrow> ('d, 'm) world \<Rightarrow> 'r \<times> ('d, 'm) world" where
  "call f w = (case f (db w, mem w) of (r, d, m) \<Rightarrow> (r, w\<lparr>db := d, mem := m\<rparr>))"

definition call_void :: "('d \<times> 'm \<Rightarrow> 'd \<times> 'm) \<Rightarrow> ('d, 'm) world \<Rightarrow> ('d, 'm) world" where
  "call_void f w = (case f (db w, mem w) of (d, m) \<Rightarrow> w\<lparr>db := d, mem := m\<rparr>)"

definition write_log :: "level \<Rightarrow> log_arg list \<Rightarrow> ('d, 'm) world \<Rightarrow> ('d, 'm) world" where
  "write_log l args w = w\<lparr>logger := logger w @ [(l, args)]\<rparr>"

definition bus_send :: "bus_message \<Rightarrow> ('d, 'm) world \<Rightarrow> ('d, 'm) world" where
  "bus_send msg w = w\<lparr>bus := bus w @ [msg]\<rparr>"

definition process_emit :: "string \<Rightarrow> ('d, 'm) world \<Rightarrow> ('d, 'm) world" where
  "process_emit s w = w\<lparr>signals := signals w @ [s]\<rparr>"

text \<open>
  Modelled from the spec: the persistence layer's \<open>tx(name, body)\<close> is not part of the
  sources. The spec: it opens a transaction and runs \<open>body\<close> atomically, the writes
  inside commit or roll back together. When the body's promise is rejected the stored
  state is as it was when the transaction was opened; everything else the body did
  (the store of objects, the slots of modules.blocks, the bus, the collaborators'
  memory) stays, and the rejection is passed on.
\<close>

definition db_tx ::
  "(('d, 'm) world \<Rightarrow> (reason + 'r) \<times> ('d, 'm) world) \<Rightarrow> ('d, 'm) world \<Rightarrow> (reason + 'r) \<times> ('d, 'm) world"
where
  "db_tx body w =
     (case body w of
        (Inl r, w') \<Rightarrow> (Inl r, w'\<lparr>db := db w\<rparr>)
      | (Inr v, w') \<Rightarrow> (Inr v, w'))"

text \<open>Promise.mapSeries: one element after the other, stopping at the first rejection.\<close>

fun mapSeries :: "('x \<Rightarrow> 's \<Rightarrow> (reason + unit) \<times> 's) \<Rightarrow> 'x list \<Rightarrow> 's \<Rightarrow> (reason + unit) \<times> 's" where
  "mapSeries f [] s = (Inr (), s)"
| "mapSeries f (x # xs) s =
     (case f x s of
        (Inl r, s') \<Rightarrow> (Inl r, s')
      | (Inr _, s') \<Rightarrow> mapSeries f xs s')"

text \<open>
  async.eachSeries: one element after the other; the first truthy \<open>err\<close> ends the
  series and is the final callback's argument, which is \<open>null\<close> otherwise.
\<close>

fun eachSeries :: "('x \<Rightarrow> 's \<Rightarrow> reason option \<times> 's) \<Rightarrow> 'x list \<Rightarrow> 's \<Rightarrow> reason option \<times> 's" where
  "eachSeries f [] s = (None, s)"
| "eachSeries f (x # xs) s =
     (case f x s of (err, s') \<Rightarrow> if isError err then (err, s') else eachSeries f xs s')"

section \<open>Saving and deleting blocks\<close>

text \<open>\<open>__private.afterSave\<close>.\<close>

definition afterSave :: "('a, 'd, 'm) modules \<Rightarrow> ref \<Rightarrow> ('d, 'm) world \<Rightarrow> reason option \<times> ('d, 'm) world" where
  "afterSave M blk w =
     (let w1 = bus_send (transactionsSaved (transactions (heap w blk))) w
      in eachSeries (\<lambda>t. call (logic_transaction_afterSave M t)) (transactions (heap w1 blk)) w1)"

text \<open>
  \<open>saveBlockBatch\<close> up to the batch's promise: both writes are issued (the second only
  for a non-empty array), and the batch is rejected when one of them is.
\<close>

definition saveBlockBatch :: "('a, 'd, 'm) modules \<Rightarrow> ref \<Rightarrow> ('d, 'm) world \<Rightarrow> (reason + unit) \<times> ('d, 'm) world" where
  "saveBlockBatch M blk w =
     (case call (db_blocks_save M (heap w blk)) w of
        (r1, w1) \<Rightarrow>
          if transactions (heap w1 blk) \<noteq> [] then
            (case call (db_transactions_save M (transactions (heap w1 blk))) w1 of
               (r2, w2) \<Rightarrow> (case r1 of Inl e \<Rightarrow> (Inl e, w2) | Inr _ \<Rightarrow> (r2, w2)))
          else (r1, w1))"

text \<open>
  The first statement of saveBlock: \<open>transaction.blockId = block.id\<close> for every
  transaction of the block object.
\<close>

definition assignBlockId :: "ref \<Rightarrow> ('d, 'm) world \<Rightarrow> ('d, 'm) world" where
  "assignBlockId blk w =
     w\<lparr>heap := (heap w)(blk := (heap w blk)\<lparr>transactions :=
          map (\<lambda>t. t\<lparr>blockId := Some (b_id (heap w blk))\<rparr>) (transactions (heap w blk))\<rparr>)\<rparr>"

text \<open>
  \<open>Chain.prototype.saveBlock(block, cb, tx)\<close>; \<open>tx\<close> tells whether a running
  transaction is passed. Without one, library.db.tx is given the callback
  \<open>t => { saveBlockBatch(t); }\<close>, which starts the batch on the handle of the new
  transaction and returns nothing: the transaction resolves whatever becomes of the
  batch, whose outcome reaches only the handlers that \<open>saveBlockBatch\<close> attached to
  it (afterSave, or the log entry and \<open>Blocks#saveBlock error\<close>). The result is the
  \<open>err\<close> handed to \<open>cb\<close>.
\<close>

definition saveBlock :: "('a, 'd, 'm) modules \<Rightarrow> ref \<Rightarrow> bool \<Rightarrow> ('d, 'm) world \<Rightarrow> reason option \<times> ('d, 'm) world" where
  "saveBlock M blk tx w =
     (let w0 = assignBlockId blk w
      in case (if tx then saveBlockBatch M blk w0
               else (fst (saveBlockBatch M blk w0),
                     snd (db_tx (\<lambda>v. (Inr (), snd (saveBlockBatch M blk v))) w0))) of
           (Inr _, w1) \<Rightarrow> afterSave M blk w1
         | (Inl err, w1) \<Rightarrow>
             (Some (ErrString ''Blocks#saveBlock error''), write_log Error [LStack err] w1))"

text \<open>\<open>Chain.prototype.saveGenesisBlock\<close>.\<close>

definition saveGenesisBlock :: "('a, 'd, 'm) modules \<Rightarrow> ('d, 'm) world \<Rightarrow> reason option outcome \<times> ('d, 'm) world" where
  "saveGenesisBlock M w =
     (case db_blocks_getGenesisBlockId M (b_id (heap w (genesisblock M))) (db w, mem w) of
        Inr rows \<Rightarrow>
          if rows = [] \<or> hd rows = [] then
            (case saveBlock M (genesisblock M) False w of (err, w1) \<Rightarrow> (Callback err, w1))
          else (Callback None, w)
      | Inl err \<Rightarrow>
          (Callback (Some (ErrString ''Blocks#saveGenesisBlock error'')),
           write_log Error [LStack err] w))"

text \<open>
  \<open>Chain.prototype.deleteBlock(blockId, cb)\<close>. It has no transaction parameter and
  goes through library.db, also when popLastBlock calls it with a transaction as third
  argument. It is the last step of popLastBlock's transaction, and a rejection there
  ends the process, so the model need not tell its write from the writes made through
  the transaction.
\<close>

definition deleteBlock :: "('a, 'd, 'm) modules \<Rightarrow> string \<Rightarrow> ('d, 'm) world \<Rightarrow> reason option \<times> ('d, 'm) world" where
  "deleteBlock M bid w =
     (case call (db_blocks_deleteBlock M bid) w of
        (Inr _, w1) \<Rightarrow> (None, w1)
      | (Inl err, w1) \<Rightarrow>
          (Some (ErrString ''Blocks#deleteBlock error''), write_log Error [LStack err] w1))"

section \<open>Applying the genesis block\<close>

text \<open>The compare function handed to \<open>sort\<close>: it looks at its first argument only.\<close>

definition genesis_comparefn :: "transaction \<Rightarrow> transaction \<Rightarrow> int" where
  "genesis_comparefn a b = (if t_type a = VOTE then 1 else 0)"

text \<open>\<open>__private.applyTransaction\<close>; the calls carry no transaction of the persistence layer.\<close>

definition applyTransaction ::
  "('a, 'd, 'm) modules \<Rightarrow> ref \<Rightarrow> transaction \<Rightarrow> 'a \<Rightarrow> ('d, 'm) world \<Rightarrow> reason option \<times> ('d, 'm) world"
where
  "applyTransaction M blk t sender w =
     (case call (transactions_applyUnconfirmed M t sender) w of
        (err, w1) \<Rightarrow>
          if isError err then (Some (ErrPlain (interp err)), w1)
          else
            (case call (transactions_apply M t (heap w1 blk) sender) w1 of
               (err2, w2) \<Rightarrow>
                 if isError err2 then
                   (Some (ErrPlain (''Failed to apply transaction: '' @ t_id t)), w2)
                 else (None, w2)))"

text \<open>
  \<open>Chain.prototype.applyGenesisBlock\<close>. The progress tracker only logs and is left
  out. \<open>process.exit(0)\<close> ends the process: the callback is never called.
\<close>

definition applyGenesisBlock ::
  "('a, 'd, 'm) modules \<Rightarrow> ref \<Rightarrow> ('d, 'm) world \<Rightarrow> reason option outcome \<times> ('d, 'm) world"
where
  "applyGenesisBlock M blk w =
     (let b = heap w blk;
          w1 = w\<lparr>heap := (heap w)(blk := b\<lparr>transactions :=
                  Array_sort M genesis_comparefn (transactions b)\<rparr>)\<rparr>
      in case eachSeries
                (\<lambda>t v.
                   case call (accounts_setAccountAndGet M (senderPublicKey t)) v of
                     ((err, sender), v1) \<Rightarrow>
                       if isError err then (Some (ErrPlain (interp err)), v1)
                       else applyTransaction M blk t sender v1)
                (transactions (heap w1 blk)) w1 of
           (err, w2) \<Rightarrow>
             if isError err then (ProcessExit, w2)
             else
               (let w3 = w2\<lparr>lastBlock := blk\<rparr>
                in case call (rounds_tick M (heap w3 blk)) w3 of
                     (terr, w4) \<Rightarrow> (Callback terr, w4)))"

section \<open>Applying a block\<close>

text \<open>\<open>__private.undoUnconfirmedListStep\<close>; the result is the \<open>err\<close> handed to \<open>cb\<close>.\<close>

definition undoUnconfirmedListStep ::
  "('a, 'd, 'm) modules \<Rightarrow> ('d, 'm) world \<Rightarrow> reason option \<times> ('d, 'm) world"
where
  "undoUnconfirmedListStep M w =
     (case call (transactions_undoUnconfirmedList M) w of
        (err, w1) \<Rightarrow>
          if isError err then
            (Some (ErrString ''Failed to undo unconfirmed list''),
             write_log Error [LText ''Failed to undo unconfirmed list'', LErr err] w1)
          else (None, w1))"

text \<open>\<open>__private.applyUnconfirmedStep\<close>: the promise of one transaction, then the series.\<close>

definition applyUnconfirmedOne ::
  "('a, 'd, 'm) modules \<Rightarrow> transaction \<Rightarrow> ('d, 'm) world \<Rightarrow> (reason + unit) \<times> ('d, 'm) world"
where
  "applyUnconfirmedOne M t w =
     (case call (accounts_setAccountAndGet M (senderPublicKey t)) w of
        ((accountErr, sender), w1) \<Rightarrow>
          if isError accountErr then
            (let err = ''Failed to get account to apply unconfirmed transaction: ''
                         @ t_id t @ '' - '' @ interp accountErr
             in (Inl (ErrString err),
                 write_log Error [LText ''Transaction'', LTx t]
                   (write_log Error [LText err] w1)))
          else
            (case call (transactions_applyUnconfirmed M t sender) w1 of
               (err0, w2) \<Rightarrow>
                 if isError err0 then
                   (let err = ''Failed to apply unconfirmed transaction: ''
                                @ t_id t @ '' - '' @ interp err0
                    in (Inl (ErrString err),
                        write_log Error [LText ''Transaction'', LTx t]
                          (write_log Error [LText err] w2)))
                 else (Inr (), w2)))"

definition applyUnconfirmedStep ::
  "('a, 'd, 'm) modules \<Rightarrow> ref \<Rightarrow> ('d, 'm) world \<Rightarrow> (reason + unit) \<times> ('d, 'm) world"
where
  "applyUnconfirmedStep M blk w = mapSeries (applyUnconfirmedOne M) (transactions (heap w blk)) w"

text \<open>\<open>__private.applyConfirmedStep\<close>.\<close>

definition applyConfirmedOne ::
  "('a, 'd, 'm) modules \<Rightarrow> ref \<Rightarrow> transaction \<Rightarrow> ('d, 'm) world \<Rightarrow> (reason + unit) \<times> ('d, 'm) world"
where
  "applyConfirmedOne M blk t w =
     (case accounts_getAccount M (senderPublicKey t) (db w, mem w) of
        (accountErr, sender) \<Rightarrow>
          if isError accountErr then
            (let err = ''Failed to get account to apply transaction: ''
                         @ t_id t @ '' - '' @ interp accountErr
             in (Inl (ErrString err),
                 write_log Error [LText ''Transaction'', LTx t]
                   (write_log Error [LText err] w)))
          else
            (case call (transactions_apply M t (heap w blk) sender) w of
               (err0, w2) \<Rightarrow>
                 if isError err0 then
                   (let err = ''Failed to apply transaction: ''
                                @ t_id t @ '' - '' @ interp err0
                    in (Inl (ErrString err),
                        write_log Error [LText ''Transaction'', LTx t]
                          (write_log Error [LText err] w2)))
                 else (Inr (), w2)))"

definition applyConfirmedStep ::
  "('a, 'd, 'm) modules \<Rightarrow> ref \<Rightarrow> ('d, 'm) world \<Rightarrow> (reason + unit) \<times> ('d, 'm) world"
where
  "applyConfirmedStep M blk w = mapSeries (applyConfirmedOne M blk) (transactions (heap w blk)) w"

text \<open>
  The tail shared by both branches of \<open>__private.saveBlockStep\<close>: the \<open>newBlock\<close>
  message, then the round tick, whose truthy \<open>err\<close> rejects the step.
\<close>

definition newBlockAndTick ::
  "('a, 'd, 'm) modules \<Rightarrow> ref \<Rightarrow> ('d, 'm) world \<Rightarrow> (reason + unit) \<times> ('d, 'm) world"
where
  "newBlockAndTick M blk w =
     (let w1 = bus_send (newBlock blk) w
      in case call (rounds_tick M (heap w1 blk)) w1 of
           (err, w2) \<Rightarrow>
             (case truthy err of
                Some e \<Rightarrow> (Inl e, w2)
              | None \<Rightarrow> (Inr (), w2)))"

text \<open>\<open>__private.saveBlockStep\<close>: its first statement sets the Last-Block Register.\<close>

definition saveBlockStep ::
  "('a, 'd, 'm) modules \<Rightarrow> ref \<Rightarrow> bool \<Rightarrow> ('d, 'm) world \<Rightarrow> (reason + unit) \<times> ('d, 'm) world"
where
  "saveBlockStep M blk saveBlk w =
     (let w1 = w\<lparr>lastBlock := blk\<rparr>
      in if saveBlk then
           (case saveBlock M blk True w1 of
              (err, w2) \<Rightarrow>
                if isError err then
                  (Inl (ErrString ''Failed to save block''),
                   write_log Error [LText ''Block'', LBlock (heap w2 blk)]
                     (write_log Error [LText ''Failed to save block...'', LErr err] w2))
                else
                  newBlockAndTick M blk
                    (write_log Debug
                       [LText ''Block applied correctly with '',
                        LNum (length (transactions (heap w2 blk))),
                        LText '' transactions''] w2))
         else newBlockAndTick M blk w1)"

text \<open>The body of the transaction \<open>Chain:applyBlock\<close>.\<close>

definition applyBlock_tx ::
  "('a, 'd, 'm) modules \<Rightarrow> ref \<Rightarrow> bool \<Rightarrow> ('d, 'm) world \<Rightarrow> (reason + unit) \<times> ('d, 'm) world"
where
  "applyBlock_tx M blk saveBlk w =
     (case applyUnconfirmedStep M blk (w\<lparr>isActive := True\<rparr>) of
        (Inl r, w1) \<Rightarrow> (Inl r, w1)
      | (Inr _, w1) \<Rightarrow>
          (case applyConfirmedStep M blk w1 of
             (Inl r, w2) \<Rightarrow> (Inl r, w2)
           | (Inr _, w2) \<Rightarrow> saveBlockStep M blk saveBlk w2))"

text \<open>\<open>Chain.prototype.applyBlock(block, saveBlock, cb)\<close>; the result is the \<open>err\<close> handed to \<open>cb\<close>.\<close>

definition applyBlock ::
  "('a, 'd, 'm) modules \<Rightarrow> ref \<Rightarrow> bool \<Rightarrow> ('d, 'm) world \<Rightarrow> reason option outcome \<times> ('d, 'm) world"
where
  "applyBlock M blk saveBlk w =
     (case undoUnconfirmedListStep M w of
        (err, w1) \<Rightarrow>
          if isError err then (Callback err, w1)
          else
            (case db_tx (applyBlock_tx M blk saveBlk) w1 of
               (Inr _, w2) \<Rightarrow>
                 (let w3 = fold (\<lambda>t. call_void (transactions_removeUnconfirmedTransaction M (t_id t)))
                             (transactions (heap w2 blk)) w2
                  in (Callback None, w3\<lparr>isActive := False\<rparr>))
             | (Inl reason, w2) \<Rightarrow>
                 (let w3 = w2\<lparr>isActive := False\<rparr>;
                      w4 = (if reason_name reason = Some ''Snapshot finished''
                            then process_emit ''SIGTERM'' (write_log Info [LErr (Some reason)] w3)
                            else w3)
                  in (Callback (Some reason), w4))))"

section \<open>Deleting the last block\<close>

text \<open>
  The steps of \<open>__private.popLastBlock\<close>. The block loaded from storage is a new
  object; the step returns its reference (the variable \<open>previousBlock\<close>).
\<close>

definition loadSecondLastBlockStep ::
  "('a, 'd, 'm) modules \<Rightarrow> string option \<Rightarrow> ('d, 'm) world \<Rightarrow> (reason + ref) \<times> ('d, 'm) world"
where
  "loadSecondLastBlockStep M secondLastBlockId w =
     (case blocks_utils_loadBlocksPart M secondLastBlockId (db w, mem w) of
        (err, blocks) \<Rightarrow>
          if isError err \<or> blocks = [] then
            (Inl (case truthy err of
                    Some e \<Rightarrow> e
                  | None \<Rightarrow> ErrString ''previousBlock is null''),
             write_log Error [LText ''Failed to get loadBlocksPart'', LErr err] w)
          else
            (Inr (lim w), w\<lparr>heap := (heap w)(lim w := hd blocks), lim := Suc (lim w)\<rparr>))"

definition undoStep ::
  "('a, 'd, 'm) modules \<Rightarrow> ref \<Rightarrow> transaction \<Rightarrow> ('d, 'm) world \<Rightarrow> (reason + unit) \<times> ('d, 'm) world"
where
  "undoStep M oldLastBlock t w =
     (case accounts_getAccount M (senderPublicKey t) (db w, mem w) of
        (accountErr, sender) \<Rightarrow>
          (case truthy accountErr of
             Some e \<Rightarrow>
               (Inl e,
                write_log Error [LText ''Failed to get account to undo transactions'', LErr accountErr] w)
           | None \<Rightarrow>
               (case call (transactions_undo M t (heap w oldLastBlock) sender) w of
                  (undoErr, w1) \<Rightarrow>
                    (case truthy undoErr of
                       Some e \<Rightarrow>
                         (Inl e, write_log Error [LText ''Failed to undo transactions'', LErr undoErr] w1)
                     | None \<Rightarrow> (Inr (), w1)))))"

definition undoUnconfirmStep ::
  "('a, 'd, 'm) modules \<Rightarrow> transaction \<Rightarrow> ('d, 'm) world \<Rightarrow> (reason + unit) \<times> ('d, 'm) world"
where
  "undoUnconfirmStep M t w =
     (case call (transactions_undoUnconfirmed M t) w of
        (undoUnconfirmErr, w1) \<Rightarrow>
          (case truthy undoUnconfirmErr of
             Some e \<Rightarrow>
               (Inl e, write_log Error [LText ''Failed to undo transactions'', LErr undoUnconfirmErr] w1)
           | None \<Rightarrow> (Inr (), w1)))"

definition backwardTickStep ::
  "('a, 'd, 'm) modules \<Rightarrow> ref \<Rightarrow> ref \<Rightarrow> ('d, 'm) world \<Rightarrow> (reason + unit) \<times> ('d, 'm) world"
where
  "backwardTickStep M oldLastBlock previousBlk w =
     (case call (rounds_backwardTick M (heap w oldLastBlock) (heap w previousBlk)) w of
        (backwardTickErr, w1) \<Rightarrow>
          (case truthy backwardTickErr of
             Some e \<Rightarrow>
               (Inl e, write_log Error [LText ''Failed to perform backwards tick'', LErr backwardTickErr] w1)
           | None \<Rightarrow> (Inr (), w1)))"

definition deleteBlockStep ::
  "('a, 'd, 'm) modules \<Rightarrow> ref \<Rightarrow> ('d, 'm) world \<Rightarrow> (reason + unit) \<times> ('d, 'm) world"
where
  "deleteBlockStep M oldLastBlock w =
     (case deleteBlock M (b_id (heap w oldLastBlock)) w of
        (deleteBlockErr, w1) \<Rightarrow>
          (case truthy deleteBlockErr of
             Some e \<Rightarrow>
               (Inl e, write_log Error [LText ''Failed to delete block'', LErr deleteBlockErr] w1)
           | None \<Rightarrow> (Inr (), w1)))"

text \<open>
  \<open>Array.prototype.reverse\<close> on the \<open>transactions\<close> array of a block object: the
  array is reversed in place and returned.
\<close>

definition reverse_transactions :: "ref \<Rightarrow> ('d, 'm) world \<Rightarrow> ('d, 'm) world" where
  "reverse_transactions blk w =
     w\<lparr>heap := (heap w)(blk := (heap w blk)\<lparr>transactions := rev (transactions (heap w blk))\<rparr>)\<rparr>"

text \<open>
  The body of the transaction \<open>Chain:deleteBlock\<close>; it resolves with the reference of
  the loaded parent. The array is reversed when the second link of the chain runs, that
  is once the parent has been loaded.
\<close>

definition popLastBlock_tx ::
  "('a, 'd, 'm) modules \<Rightarrow> ref \<Rightarrow> ('d, 'm) world \<Rightarrow> (reason + ref) \<times> ('d, 'm) world"
where
  "popLastBlock_tx M oldLastBlock w =
     (case loadSecondLastBlockStep M (previousBlock (heap w oldLastBlock)) w of
        (Inl r, w1) \<Rightarrow> (Inl r, w1)
      | (Inr previousBlk, w1) \<Rightarrow>
          (let w2 = reverse_transactions oldLastBlock w1
           in case mapSeries
                     (\<lambda>t v. case undoStep M oldLastBlock t v of
                               (Inl r, v1) \<Rightarrow> (Inl r, v1)
                             | (Inr _, v1) \<Rightarrow> undoUnconfirmStep M t v1)
                     (transactions (heap w2 oldLastBlock)) w2 of
                (Inl r, w3) \<Rightarrow> (Inl r, w3)
              | (Inr _, w3) \<Rightarrow>
                  (case backwardTickStep M oldLastBlock previousBlk w3 of
                     (Inl r, w4) \<Rightarrow> (Inl r, w4)
                   | (Inr _, w4) \<Rightarrow>
                       (case deleteBlockStep M oldLastBlock w4 of
                          (Inl r, w5) \<Rightarrow> (Inl r, w5)
                        | (Inr _, w5) \<Rightarrow> (Inr previousBlk, w5)))))"

text \<open>
  \<open>__private.popLastBlock\<close>: \<open>cb(null, previousBlock)\<close> when the transaction commits;
  a rejection ends the process before the callback can be called.
\<close>

definition popLastBlock ::
  "('a, 'd, 'm) modules \<Rightarrow> ref \<Rightarrow> ('d, 'm) world \<Rightarrow> ref outcome \<times> ('d, 'm) world"
where
  "popLastBlock M oldLastBlock w =
     (case db_tx (popLastBlock_tx M oldLastBlock) w of
        (Inr previousBlk, w1) \<Rightarrow> (Callback previousBlk, w1)
      | (Inl err, w1) \<Rightarrow> (ProcessExit, w1))"

text \<open>
  \<open>Chain.prototype.deleteLastBlock\<close>; the result is the pair \<open>(err, newLastBlock)\<close>
  handed to \<open>cb\<close>. \<open>lastBlock\<close> and popLastBlock's \<open>oldLastBlock\<close> are the same
  object, whose array the second step reverses once more.
\<close>

definition deleteLastBlock ::
  "('a, 'd, 'm) modules \<Rightarrow> ('d, 'm) world \<Rightarrow> (reason option \<times> ref option) outcome \<times> ('d, 'm) world"
where
  "deleteLastBlock M w =
     (let lastBlk = lastBlock w;
          w0 = write_log Warn [LText ''Deleting last block'', LBlock (heap w lastBlk)] w
      in if height (heap w0 lastBlk) = 1 then
           (Callback (Some (ErrString ''Cannot delete genesis block''), None), w0)
         else
           (case popLastBlock M lastBlk w0 of
              (ProcessExit, w1) \<Rightarrow> (ProcessExit, w1)
            | (Callback newLastBlock, w1) \<Rightarrow>
                (let w2 = reverse_transactions lastBlk w1
                 in case call (transactions_receiveTransactions M
                                 (transactions (heap w2 lastBlk)) False) w2 of
                      (err, w3) \<Rightarrow>
                        (let w4 = (if isError err
                                   then write_log Error [LText ''Error adding transactions'', LErr err] w3
                                   else w3)
                         in (Callback (None, Some newLastBlock), w4\<lparr>lastBlock := newLastBlock\<rparr>)))))"

section \<open>The engine's sort\<close>

text \<open>
  \<open>Array.prototype.sort\<close> belongs to the JavaScript engine, not to the repository.
  ECMAScript fixes the result only for a consistent compare function; for any other
  the order is implementation-defined. Two algorithms of V8 are modelled, each on the
  arrays it handles alone.

  InsertionSort of V8's array.js (Node.js up to version 10), used for arrays of at most
  10 elements: each element moves left past every element \<open>tmp\<close> with
  \<open>comparefn(tmp, element) > 0\<close>. The prefix already placed is kept from right to left.
\<close>

fun insertion_shift :: "('x \<Rightarrow> 'x \<Rightarrow> int) \<Rightarrow> 'x \<Rightarrow> 'x list \<Rightarrow> 'x list" where
  "insertion_shift comparefn element [] = [element]"
| "insertion_shift comparefn element (tmp # rest) =
     (if comparefn tmp element > 0 then tmp # insertion_shift comparefn element rest
      else element # tmp # rest)"

definition InsertionSort :: "('x \<Rightarrow> 'x \<Rightarrow> int) \<Rightarrow> 'x list \<Rightarrow> 'x list" where
  "InsertionSort comparefn a =
     rev (foldl (\<lambda>placed element. insertion_shift comparefn element placed) [] a)"

text \<open>
  TimSort of V8's array-sort.tq (Node.js from version 11), on arrays of fewer than 64
  elements, where the minimal run length is the array's length: the first run is counted
  (and reversed when strictly descending), and the elements behind it are placed by
  binary insertion, \<open>comparefn(pivot, a[mid]) < 0\<close> moving the pivot to the left half.
\<close>

fun run_length :: "bool \<Rightarrow> ('x \<Rightarrow> 'x \<Rightarrow> int) \<Rightarrow> 'x \<Rightarrow> 'x list \<Rightarrow> nat" where
  "run_length isDescending comparefn previousElement [] = 0"
| "run_length isDescending comparefn previousElement (currentElement # rest) =
     (let order = comparefn currentElement previousElement
      in if (if isDescending then order \<ge> 0 else order < 0) then 0
         else Suc (run_length isDescending comparefn currentElement rest))"

definition CountAndMakeRun :: "('x \<Rightarrow> 'x \<Rightarrow> int) \<Rightarrow> 'x list \<Rightarrow> nat \<times> 'x list" where
  "CountAndMakeRun comparefn a =
     (case a of
        [] \<Rightarrow> (0, a)
      | [x] \<Rightarrow> (1, a)
      | elementLow # elementHigh # rest \<Rightarrow>
          (let isDescending = (comparefn elementHigh elementLow < 0);
               n = 2 + run_length isDescending comparefn elementHigh rest
           in (n, if isDescending then rev (take n a) @ drop n a else a)))"

function binary_position :: "('x \<Rightarrow> 'x \<Rightarrow> int) \<Rightarrow> 'x \<Rightarrow> 'x list \<Rightarrow> nat \<Rightarrow> nat \<Rightarrow> nat" where
  "binary_position comparefn pivot a left right =
     (if left < right then
        (let mid = left + (right - left) div 2
         in if comparefn pivot (a ! mid) < 0
            then binary_position comparefn pivot a left mid
            else binary_position comparefn pivot a (mid + 1) right)
      else left)"
  by pat_completeness auto
termination
  by (relation "measure (\<lambda>(comparefn, pivot, a, left, right). right - left)") auto

fun BinaryInsertionSort :: "('x \<Rightarrow> 'x \<Rightarrow> int) \<Rightarrow> 'x list \<Rightarrow> 'x list \<Rightarrow> 'x list" where
  "BinaryInsertionSort comparefn placed [] = placed"
| "BinaryInsertionSort comparefn placed (pivot # rest) =
     (let left = binary_position comparefn pivot placed 0 (length placed)
      in BinaryInsertionSort comparefn (take left placed @ pivot # drop left placed) rest)"

definition TimSort_short :: "('x \<Rightarrow> 'x \<Rightarrow> int) \<Rightarrow> 'x list \<Rightarrow> 'x list" where
  "TimSort_short comparefn a =
     (case CountAndMakeRun comparefn a of
        (n, a') \<Rightarrow> BinaryInsertionSort comparefn (take n a') (drop n a'))"

section \<open>Collaborators modelled from the spec\<close>

text \<open>
  The Account Store, the Transaction Executor, the Transaction Pool, the Round
  Controller and the entity functions of the persistence layer are not part of the
  sources. The definitions of this section follow the spec's contracts; they serve to
  run the module on concrete states and to settle what depends on the collaborators.
\<close>

text \<open>
  Modelled from the spec: the Account Store's account, of which the module consumes the
  confirmed and the unconfirmed balance.
\<close>

record account =
  publicKey :: string
  balance :: int
  u_balance :: int

text \<open>
  Modelled from the spec: the persisted state. The \<open>blocks\<close> table (keyed by \<open>id\<close>,
  \<open>height\<close> unique; its rows carry no transactions), the \<open>transactions\<close> table (keyed
  by \<open>id\<close>, with the foreign key \<open>blockId\<close>), the confirmed and the unconfirmed
  balance of every account by public key (an account never created has both at 0), and
  the round bookkeeping.
\<close>

record store =
  blocks_table :: "block list"
  trs_table :: "transaction list"
  acc_balance :: "string \<Rightarrow> int"
  acc_u_balance :: "string \<Rightarrow> int"
  round_height :: nat

text \<open>
  Modelled from the spec: the Transaction Pool's unconfirmed set. The journal beside it
  lists the calls the Transaction Executor received, oldest first.
\<close>

record memory =
  unconfirmed :: "transaction list"
  journal :: "(string \<times> string) list"

text \<open>Modelled from the spec: the Transaction Executor notes a call in the journal.\<close>

definition journal_add :: "string \<Rightarrow> transaction \<Rightarrow> memory \<Rightarrow> memory" where
  "journal_add opname t m = m\<lparr>journal := journal m @ [(opname, t_id t)]\<rparr>"

text \<open>Modelled from the spec: the effect of a transaction on a balance is given back to the sender.\<close>

definition credit :: "transaction \<Rightarrow> (string \<Rightarrow> int) \<Rightarrow> (string \<Rightarrow> int)" where
  "credit t f = f(senderPublicKey t := f (senderPublicKey t) + amount t)"

text \<open>Modelled from the spec: the effect of a transaction on a balance is deducted from the sender.\<close>

definition debit :: "transaction \<Rightarrow> (string \<Rightarrow> int) \<Rightarrow> (string \<Rightarrow> int)" where
  "debit t f = f(senderPublicKey t := f (senderPublicKey t) - amount t)"

text \<open>Modelled from the spec: \<open>getAccount\<close> of the Account Store, the lookup by public key.\<close>

definition spec_getAccount :: "string \<Rightarrow> store \<times> memory \<Rightarrow> reason option \<times> account" where
  "spec_getAccount pk s =
     (None, \<lparr>publicKey = pk, balance = acc_balance (fst s) pk, u_balance = acc_u_balance (fst s) pk\<rparr>)"

text \<open>Modelled from the spec: \<open>setAccountAndGet\<close> of the Account Store, get-or-create and return.\<close>

definition spec_setAccountAndGet :: "string \<Rightarrow> store \<times> memory \<Rightarrow> (reason option \<times> account) \<times> store \<times> memory" where
  "spec_setAccountAndGet pk s = (spec_getAccount pk s, s)"

text \<open>
  Modelled from the spec: \<open>applyUnconfirmed\<close> of the Transaction Executor deducts the
  unconfirmed-balance effect; a sender that cannot pay makes it fail.
\<close>

definition spec_applyUnconfirmed :: "transaction \<Rightarrow> account \<Rightarrow> store \<times> memory \<Rightarrow> reason option \<times> store \<times> memory" where
  "spec_applyUnconfirmed t sender s =
     (case s of (d, m) \<Rightarrow>
        if u_balance sender < amount t
        then (Some (ErrString ''Account does not have enough funds''), d, m)
        else (None, d\<lparr>acc_u_balance := debit t (acc_u_balance d)\<rparr>, journal_add ''applyUnconfirmed'' t m))"

text \<open>
  Modelled from the spec: \<open>apply\<close> of the Transaction Executor deducts the
  confirmed-balance effect; a sender that cannot pay makes it fail.
\<close>

definition spec_apply :: "transaction \<Rightarrow> block \<Rightarrow> account \<Rightarrow> store \<times> memory \<Rightarrow> reason option \<times> store \<times> memory" where
  "spec_apply t b sender s =
     (case s of (d, m) \<Rightarrow>
        if balance sender < amount t
        then (Some (ErrString ''Account does not have enough funds''), d, m)
        else (None, d\<lparr>acc_balance := debit t (acc_balance d)\<rparr>, journal_add ''apply'' t m))"

text \<open>Modelled from the spec: \<open>undo\<close> of the Transaction Executor reverses \<open>apply\<close>.\<close>

definition spec_undo :: "transaction \<Rightarrow> block \<Rightarrow> account \<Rightarrow> store \<times> memory \<Rightarrow> reason option \<times> store \<times> memory" where
  "spec_undo t b sender s =
     (case s of (d, m) \<Rightarrow> (None, d\<lparr>acc_balance := credit t (acc_balance d)\<rparr>, journal_add ''undo'' t m))"

text \<open>
  Modelled from the spec: \<open>undoUnconfirmed\<close> of the Transaction Executor reverses
  \<open>applyUnconfirmed\<close>.
\<close>

definition spec_undoUnconfirmed :: "transaction \<Rightarrow> store \<times> memory \<Rightarrow> reason option \<times> store \<times> memory" where
  "spec_undoUnconfirmed t s =
     (case s of (d, m) \<Rightarrow>
        (None, d\<lparr>acc_u_balance := credit t (acc_u_balance d)\<rparr>, journal_add ''undoUnconfirmed'' t m))"

text \<open>
  Modelled from the spec: \<open>undoUnconfirmedList\<close> of the Transaction Pool rolls back
  every pending unconfirmed transaction's effect on the unconfirmed balances.
\<close>

definition spec_undoUnconfirmedList :: "store \<times> memory \<Rightarrow> reason option \<times> store \<times> memory" where
  "spec_undoUnconfirmedList s =
     (case s of (d, m) \<Rightarrow>
        (None, d\<lparr>acc_u_balance := fold credit (unconfirmed m) (acc_u_balance d)\<rparr>, m))"

text \<open>
  Modelled from the spec: \<open>removeUnconfirmedTransaction\<close> removes a transaction id
  from the pool's unconfirmed set.
\<close>

definition spec_removeUnconfirmedTransaction :: "string \<Rightarrow> store \<times> memory \<Rightarrow> store \<times> memory" where
  "spec_removeUnconfirmedTransaction i s =
     (case s of (d, m) \<Rightarrow> (d, m\<lparr>unconfirmed := filter (\<lambda>t. t_id t \<noteq> i) (unconfirmed m)\<rparr>))"

text \<open>
  Modelled from the spec: \<open>receiveTransactions\<close> puts transactions into the pool as
  unconfirmed, behind those it holds; the balances are left alone.
\<close>

definition spec_receiveTransactions :: "transaction list \<Rightarrow> bool \<Rightarrow> store \<times> memory \<Rightarrow> reason option \<times> store \<times> memory" where
  "spec_receiveTransactions ts broadcast s =
     (case s of (d, m) \<Rightarrow> (None, d, m\<lparr>unconfirmed := unconfirmed m @ ts\<rparr>))"

text \<open>
  Modelled from the spec: the forward tick of the Round Controller, bookkeeping the
  module treats as opaque.
\<close>

definition spec_tick :: "block \<Rightarrow> store \<times> memory \<Rightarrow> reason option \<times> store \<times> memory" where
  "spec_tick b s = (case s of (d, m) \<Rightarrow> (None, d\<lparr>round_height := height b\<rparr>, m))"

text \<open>Modelled from the spec: the backward tick of the Round Controller, with the old tip and the parent.\<close>

definition spec_backwardTick :: "block \<Rightarrow> block \<Rightarrow> store \<times> memory \<Rightarrow> reason option \<times> store \<times> memory" where
  "spec_backwardTick oldBlock newTip s =
     (case s of (d, m) \<Rightarrow> (None, d\<lparr>round_height := height newTip\<rparr>, m))"

text \<open>
  Modelled from the spec: \<open>getGenesisBlockId\<close> of the persistence layer, the ids of
  the rows of \<open>blocks\<close> with the given id.
\<close>

definition spec_getGenesisBlockId :: "string \<Rightarrow> store \<times> memory \<Rightarrow> reason + string list" where
  "spec_getGenesisBlockId i s = Inr (map b_id (filter (\<lambda>r. b_id r = i) (blocks_table (fst s))))"

text \<open>
  Modelled from the spec: \<open>save\<close> of the \<open>blocks\<close> entity; a row that breaks the key
  \<open>id\<close> or the uniqueness of \<open>height\<close> is rejected.
\<close>

definition spec_blocks_save :: "block \<Rightarrow> store \<times> memory \<Rightarrow> (reason + unit) \<times> store \<times> memory" where
  "spec_blocks_save b s =
     (case s of (d, m) \<Rightarrow>
        if b_id b \<in> set (map b_id (blocks_table d)) \<or> height b \<in> set (map height (blocks_table d))
        then (Inl (ErrObject ''error'' ''duplicate key value violates unique constraint''), d, m)
        else (Inr (), d\<lparr>blocks_table := blocks_table d @ [b\<lparr>transactions := []\<rparr>]\<rparr>, m))"

text \<open>
  Modelled from the spec: \<open>save\<close> of the \<open>transactions\<close> entity; rows that break the
  key \<open>id\<close> are rejected.
\<close>

definition spec_transactions_save :: "transaction list \<Rightarrow> store \<times> memory \<Rightarrow> (reason + unit) \<times> store \<times> memory" where
  "spec_transactions_save ts s =
     (case s of (d, m) \<Rightarrow>
        if (\<exists>t \<in> set ts. t_id t \<in> set (map t_id (trs_table d))) \<or> \<not> distinct (map t_id ts)
        then (Inl (ErrObject ''error'' ''duplicate key value violates unique constraint''), d, m)
        else (Inr (), d\<lparr>trs_table := trs_table d @ ts\<rparr>, m))"

text \<open>
  Modelled from the spec: \<open>deleteBlock\<close> of the persistence layer deletes the block
  row, which cascades to its transactions.
\<close>

definition spec_deleteBlock :: "string \<Rightarrow> store \<times> memory \<Rightarrow> (reason + unit) \<times> store \<times> memory" where
  "spec_deleteBlock i s =
     (case s of (d, m) \<Rightarrow>
        (Inr (), d\<lparr>blocks_table := filter (\<lambda>r. b_id r \<noteq> i) (blocks_table d),
                   trs_table := filter (\<lambda>t. blockId t \<noteq> Some i) (trs_table d)\<rparr>, m))"

text \<open>
  Modelled from the spec: \<open>loadBlocksPart\<close> loads the block with the given id
  together with its transactions.
\<close>

definition spec_loadBlocksPart :: "string option \<Rightarrow> store \<times> memory \<Rightarrow> reason option \<times> block list" where
  "spec_loadBlocksPart i s =
     (None,
      map (\<lambda>r. r\<lparr>transactions := filter (\<lambda>t. blockId t = Some (b_id r)) (trs_table (fst s))\<rparr>)
          (filter (\<lambda>r. Some (b_id r) = i) (blocks_table (fst s))))"

text \<open>
  Modelled from the spec: \<open>afterSave\<close> of the transaction logic, type-specific work
  after a save, of which the spec says nothing; it does nothing here.
\<close>

definition spec_afterSave :: "transaction \<Rightarrow> store \<times> memory \<Rightarrow> reason option \<times> store \<times> memory" where
  "spec_afterSave t s = (None, s)"

text \<open>
  Modelled from the spec: the collaborators together; \<open>g\<close> is the genesis block object,
  the engine sorts by insertion.
\<close>

definition spec_modules :: "ref \<Rightarrow> (account, store, memory) modules" where
  "spec_modules g =
     \<lparr>genesisblock = g,
      Array_sort = InsertionSort,
      db_blocks_getGenesisBlockId = spec_getGenesisBlockId,
      db_blocks_save = spec_blocks_save,
      db_transactions_save = spec_transactions_save,
      db_blocks_deleteBlock = spec_deleteBlock,
      logic_transaction_afterSave = spec_afterSave,
      accounts_setAccountAndGet = spec_setAccountAndGet,
      accounts_getAccount = spec_getAccount,
      transactions_undoUnconfirmedList = spec_undoUnconfirmedList,
      transactions_applyUnconfirmed = spec_applyUnconfirmed,
      transactions_apply = spec_apply,
      transactions_undo = spec_undo,
      transactions_undoUnconfirmed = spec_undoUnconfirmed,
      transactions_removeUnconfirmedTransaction = spec_removeUnconfirmedTransaction,
      transactions_receiveTransactions = spec_receiveTransactions,
      rounds_tick = spec_tick,
      rounds_backwardTick = spec_backwardTick,
      blocks_utils_loadBlocksPart = spec_loadBlocksPart\<rparr>"

section \<open>Concrete states\<close>

text \<open>
  A small chain on which the module is run: the tip \<open>T\<close> of height 1 is persisted;
  \<open>B\<close> (two transactions) and \<open>E\<close> (none) are successors of \<open>T\<close>; \<open>X\<close> names
  another parent and another height; \<open>G\<close> is a genesis block with
  the transaction sequence TRANSFER, VOTE, TRANSFER, VOTE; \<open>F\<close> holds a transaction
  its sender cannot pay. The pool holds one pending transaction of \<open>alice\<close>, whose
  unconfirmed balance is lower by its amount.
\<close>

definition demo_tx1 :: transaction where
  "demo_tx1 = \<lparr>t_id = ''t1'', t_type = TRANSFER, senderPublicKey = ''alice'', blockId = None, amount = 5\<rparr>"

definition demo_tx2 :: transaction where
  "demo_tx2 = \<lparr>t_id = ''t2'', t_type = VOTE, senderPublicKey = ''bob'', blockId = None, amount = 3\<rparr>"

definition demo_txp :: transaction where
  "demo_txp = \<lparr>t_id = ''p'', t_type = TRANSFER, senderPublicKey = ''alice'', blockId = None, amount = 2\<rparr>"

definition demo_txbig :: transaction where
  "demo_txbig = \<lparr>t_id = ''big'', t_type = TRANSFER, senderPublicKey = ''alice'', blockId = None, amount = 100\<rparr>"

definition TRANSFER_a :: transaction where
  "TRANSFER_a = \<lparr>t_id = ''a'', t_type = TRANSFER, senderPublicKey = ''carol'', blockId = None, amount = 0\<rparr>"

definition VOTE_b :: transaction where
  "VOTE_b = \<lparr>t_id = ''b'', t_type = VOTE, senderPublicKey = ''carol'', blockId = None, amount = 0\<rparr>"

definition TRANSFER_c :: transaction where
  "TRANSFER_c = \<lparr>t_id = ''c'', t_type = TRANSFER, senderPublicKey = ''dave'', blockId = None, amount = 0\<rparr>"

definition VOTE_d :: transaction where
  "VOTE_d = \<lparr>t_id = ''d'', t_type = VOTE, senderPublicKey = ''dave'', blockId = None, amount = 0\<rparr>"

definition blockT :: block where
  "blockT = \<lparr>b_id = ''T'', height = 1, previousBlock = None, transactions = []\<rparr>"

definition blockB :: block where
  "blockB = \<lparr>b_id = ''B'', height = 2, previousBlock = Some ''T'', transactions = [demo_tx1, demo_tx2]\<rparr>"

definition blockE :: block where
  "blockE = \<lparr>b_id = ''E'', height = 2, previousBlock = Some ''T'', transactions = []\<rparr>"

definition blockX :: block where
  "blockX = \<lparr>b_id = ''X'', height = 7, previousBlock = Some ''Y'', transactions = []\<rparr>"

definition blockG :: block where
  "blockG = \<lparr>b_id = ''G'', height = 1, previousBlock = None,
              transactions = [TRANSFER_a, VOTE_b, TRANSFER_c, VOTE_d]\<rparr>"

definition blockF :: block where
  "blockF = \<lparr>b_id = ''F'', height = 2, previousBlock = Some ''T'', transactions = [demo_txbig]\<rparr>"

definition demo_store :: store where
  "demo_store =
     \<lparr>blocks_table = [blockT], trs_table = [],
      acc_balance = (\<lambda>_. 0)(''alice'' := 10, ''bob'' := 10),
      acc_u_balance = (\<lambda>_. 0)(''alice'' := 8, ''bob'' := 10),
      round_height = 1\<rparr>"

definition demo_world :: "(store, memory) world" where
  "demo_world =
     \<lparr>heap = (\<lambda>_. blockT)(1 := blockB, 2 := blockE, 3 := blockX, 5 := blockG, 6 := blockF),
      lim = 7, lastBlock = 0, isActive = False, bus = [], logger = [], signals = [],
      db = demo_store, mem = \<lparr>unconfirmed = [demo_txp], journal = []\<rparr>\<rparr>"

text \<open>The same state on an empty \<open>blocks\<close> table.\<close>

definition empty_chain_world :: "(store, memory) world" where
  "empty_chain_world = demo_world\<lparr>db := demo_store\<lparr>blocks_table := []\<rparr>\<rparr>"

text \<open>The collaborators with \<open>G\<close> as genesis block, and variants in which one of them fails.\<close>

definition demo_modules :: "(account, store, memory) modules" where
  "demo_modules = spec_modules 5"

definition tick_fails :: "reason \<Rightarrow> (account, store, memory) modules" where
  "tick_fails r = demo_modules\<lparr>rounds_tick := \<lambda>b s. (Some r, s)\<rparr>"

definition undo_list_fails :: "(account, store, memory) modules" where
  "undo_list_fails =
     demo_modules\<lparr>transactions_undoUnconfirmedList := \<lambda>s. (Some (ErrString ''undo failed''), s)\<rparr>"

definition pool_rejects :: "(account, store, memory) modules" where
  "pool_rejects =
     demo_modules\<lparr>transactions_receiveTransactions := \<lambda>ts broadcast s. (Some (ErrString ''pool is full''), s)\<rparr>"

definition write_fails :: "(account, store, memory) modules" where
  "write_fails =
     demo_modules\<lparr>db_transactions_save := \<lambda>ts s. (Inl (ErrObject ''error'' ''connection lost''), s)\<rparr>"

definition timsort_modules :: "(account, store, memory) modules" where
  "timsort_modules = demo_modules\<lparr>Array_sort := TimSort_short\<rparr>"

text \<open>The state after block \<open>B\<close> has been applied on \<open>T\<close> and written to storage.\<close>

definition demo_applied :: "(store, memory) world" where
  "demo_applied = snd (applyBlock demo_modules 1 True demo_world)"

section \<open>What a step leaves alone\<close>

text \<open>
  The parts of the state the collaborators and the logger cannot touch, and the parts
  that saving a block (which writes into the block object and sends on the bus) leaves.
\<close>

definition core :: "('d, 'm) world \<Rightarrow> (ref \<Rightarrow> block) \<times> ref \<times> ref \<times> bool \<times> bus_message list \<times> string list" where
  "core w = (heap w, lim w, lastBlock w, isActive w, bus w, signals w)"

definition slots :: "('d, 'm) world \<Rightarrow> ref \<times> ref \<times> bool \<times> string list" where
  "slots w = (lim w, lastBlock w, isActive w, signals w)"

lemmas chain_defs =
  call_def call_void_def write_log_def bus_send_def process_emit_def db_tx_def truthy_def
  afterSave_def saveBlockBatch_def assignBlockId_def saveBlock_def saveGenesisBlock_def
  deleteBlock_def
  genesis_comparefn_def applyTransaction_def applyGenesisBlock_def
  undoUnconfirmedListStep_def applyUnconfirmedOne_def applyUnconfirmedStep_def
  applyConfirmedOne_def applyConfirmedStep_def newBlockAndTick_def saveBlockStep_def
  applyBlock_tx_def applyBlock_def loadSecondLastBlockStep_def undoStep_def
  undoUnconfirmStep_def backwardTickStep_def deleteBlockStep_def reverse_transactions_def
  popLastBlock_tx_def popLastBlock_def deleteLastBlock_def

lemmas spec_defs =
  spec_modules_def journal_add_def credit_def debit_def spec_getAccount_def
  spec_setAccountAndGet_def spec_applyUnconfirmed_def spec_apply_def spec_undo_def
  spec_undoUnconfirmed_def spec_undoUnconfirmedList_def spec_removeUnconfirmedTransaction_def
  spec_receiveTransactions_def spec_tick_def spec_backwardTick_def spec_getGenesisBlockId_def
  spec_blocks_save_def spec_transactions_save_def spec_deleteBlock_def spec_loadBlocksPart_def
  spec_afterSave_def InsertionSort_def TimSort_short_def CountAndMakeRun_def

lemmas demo_defs =
  demo_tx1_def demo_tx2_def demo_txp_def demo_txbig_def TRANSFER_a_def VOTE_b_def
  TRANSFER_c_def VOTE_d_def blockT_def blockB_def blockE_def blockX_def
  blockG_def blockF_def demo_store_def demo_world_def empty_chain_world_def demo_modules_def
  tick_fails_def undo_list_fails_def pool_rejects_def write_fails_def timsort_modules_def

section \<open>Lemmas on the steps\<close>

lemma core_call: "core (snd (call f w)) = core w"
  by (simp add: core_def call_def split: prod.splits)

lemma core_call_void: "core (call_void f w) = core w"
  by (simp add: core_def call_void_def split: prod.splits)

lemma core_write_log: "core (write_log l args w) = core w"
  by (simp add: core_def write_log_def)

lemma core_mapSeries:
  assumes "\<And>x s. core (snd (f x s)) = core s"
  shows "core (snd (mapSeries f xs s)) = core s"
proof (induction xs arbitrary: s)
  case Nil
  show ?case by simp
next
  case (Cons x xs)
  obtain r s' where fx: "f x s = (r, s')" by (cases "f x s")
  have "core s' = core s" using assms [of x s] fx by simp
  with Cons fx show ?case by (cases r) simp_all
qed

lemma core_eachSeries:
  assumes "\<And>x s. core (snd (f x s)) = core s"
  shows "core (snd (eachSeries f xs s)) = core s"
proof (induction xs arbitrary: s)
  case Nil
  show ?case by simp
next
  case (Cons x xs)
  obtain r s' where fx: "f x s = (r, s')" by (cases "f x s")
  have "core s' = core s" using assms [of x s] fx by simp
  with Cons fx show ?case by simp
qed

lemma core_undoUnconfirmedListStep: "core (snd (undoUnconfirmedListStep M w)) = core w"
proof -
  obtain err w1 where c: "call (transactions_undoUnconfirmedList M) w = (err, w1)"
    by (cases "call (transactions_undoUnconfirmedList M) w")
  have "core w1 = core w" using core_call [of "transactions_undoUnconfirmedList M" w] c by simp
  then show ?thesis by (simp add: undoUnconfirmedListStep_def c core_write_log)
qed

lemma core_applyUnconfirmedOne: "core (snd (applyUnconfirmedOne M t w)) = core w"
proof -
  obtain aerr sender w1 where c1: "call (accounts_setAccountAndGet M (senderPublicKey t)) w = ((aerr, sender), w1)"
    by (cases "call (accounts_setAccountAndGet M (senderPublicKey t)) w") auto
  obtain err w2 where c2: "call (transactions_applyUnconfirmed M t sender) w1 = (err, w2)"
    by (cases "call (transactions_applyUnconfirmed M t sender) w1")
  have 1: "core w1 = core w" using core_call [of "accounts_setAccountAndGet M (senderPublicKey t)" w] c1 by simp
  have 2: "core w2 = core w1" using core_call [of "transactions_applyUnconfirmed M t sender" w1] c2 by simp
  show ?thesis by (simp add: applyUnconfirmedOne_def c1 c2 1 2 core_write_log Let_def)
qed

lemma core_applyUnconfirmedStep: "core (snd (applyUnconfirmedStep M blk w)) = core w"
  unfolding applyUnconfirmedStep_def by (rule core_mapSeries) (rule core_applyUnconfirmedOne)

lemma core_applyConfirmedOne: "core (snd (applyConfirmedOne M blk t w)) = core w"
proof -
  obtain aerr sender where c1: "accounts_getAccount M (senderPublicKey t) (db w, mem w) = (aerr, sender)"
    by (cases "accounts_getAccount M (senderPublicKey t) (db w, mem w)")
  obtain err w2 where c2: "call (transactions_apply M t (heap w blk) sender) w = (err, w2)"
    by (cases "call (transactions_apply M t (heap w blk) sender) w")
  have 2: "core w2 = core w" using core_call [of "transactions_apply M t (heap w blk) sender" w] c2 by simp
  show ?thesis by (simp add: applyConfirmedOne_def c1 c2 2 core_write_log Let_def)
qed

lemma core_applyConfirmedStep: "core (snd (applyConfirmedStep M blk w)) = core w"
  unfolding applyConfirmedStep_def by (rule core_mapSeries) (rule core_applyConfirmedOne)

lemma core_slots: "core w' = core w \<Longrightarrow> slots w' = slots w"
  by (simp add: core_def slots_def)

lemma db_tx_fst: "fst (db_tx body w) = fst (body w)"
  by (simp add: db_tx_def split: prod.splits sum.splits)

lemma db_tx_core: "core (snd (db_tx body w)) = core (snd (body w))"
  by (simp add: db_tx_def core_def split: prod.splits sum.splits)

lemma db_tx_slots: "slots (snd (db_tx body w)) = slots (snd (body w))"
  by (simp add: db_tx_def slots_def split: prod.splits sum.splits)

lemma db_tx_logger: "logger (snd (db_tx body w)) = logger (snd (body w))"
  by (simp add: db_tx_def split: prod.splits sum.splits)

lemma db_tx_mem: "mem (snd (db_tx body w)) = mem (snd (body w))"
  by (simp add: db_tx_def split: prod.splits sum.splits)

lemma db_tx_db:
  "db (snd (db_tx body w)) = (if isl (fst (body w)) then db w else db (snd (body w)))"
  by (simp add: db_tx_def split: prod.splits sum.splits)

lemma core_saveBlockBatch: "core (snd (saveBlockBatch M blk w)) = core w"
proof -
  obtain r1 w1 where c1: "call (db_blocks_save M (heap w blk)) w = (r1, w1)"
    by (cases "call (db_blocks_save M (heap w blk)) w")
  obtain r2 w2 where c2: "call (db_transactions_save M (transactions (heap w1 blk))) w1 = (r2, w2)"
    by (cases "call (db_transactions_save M (transactions (heap w1 blk))) w1")
  have 1: "core w1 = core w" using core_call [of "db_blocks_save M (heap w blk)" w] c1 by simp
  have 2: "core w2 = core w1"
    using core_call [of "db_transactions_save M (transactions (heap w1 blk))" w1] c2 by simp
  show ?thesis by (simp add: saveBlockBatch_def c1 c2 1 2 split: sum.splits)
qed

lemma afterSave_frame:
  "slots (snd (afterSave M blk w)) = slots w \<and> heap (snd (afterSave M blk w)) = heap w \<and>
   bus (snd (afterSave M blk w)) = bus w @ [transactionsSaved (transactions (heap w blk))]"
proof -
  let ?w1 = "bus_send (transactionsSaved (transactions (heap w blk))) w"
  have "core (snd (eachSeries (\<lambda>t. call (logic_transaction_afterSave M t)) (transactions (heap ?w1 blk)) ?w1)) = core ?w1"
    by (rule core_eachSeries) (rule core_call)
  then show ?thesis
    by (simp add: afterSave_def Let_def core_def slots_def bus_send_def)
qed

lemma saveBlock_no_tx: "saveBlock M blk False w = saveBlock M blk True w"
  by (simp add: saveBlock_def db_tx_def Let_def)

lemma saveBlock_frame:
  "slots (snd (saveBlock M blk tx w)) = slots w \<and>
   (\<exists>X. bus (snd (saveBlock M blk tx w)) = bus w @ X \<and> newBlock blk \<notin> set X)"
proof -
  let ?w0 = "assignBlockId blk w"
  have same: "saveBlock M blk tx w = saveBlock M blk True w"
    by (cases tx) (simp_all add: saveBlock_no_tx)
  obtain r w1 where b: "saveBlockBatch M blk ?w0 = (r, w1)" by (cases "saveBlockBatch M blk ?w0")
  have "core w1 = core (snd (saveBlockBatch M blk ?w0))"
    using b by simp
  then have c1: "core w1 = core ?w0" by (simp add: core_saveBlockBatch)
  then have s1: "slots w1 = slots w" and b1: "bus w1 = bus w"
    by (simp_all add: core_def slots_def assignBlockId_def)
  show ?thesis
  proof (cases r)
    case (Inl e)
    then show ?thesis using b s1 b1 same
      by (simp add: saveBlock_def Let_def write_log_def slots_def)
  next
    case (Inr v)
    then have "saveBlock M blk tx w = afterSave M blk w1"
      using b same by (simp add: saveBlock_def Let_def)
    then show ?thesis using afterSave_frame [of M blk w1] s1 b1 by simp
  qed
qed

lemma newBlockAndTick_frame:
  "slots (snd (newBlockAndTick M blk w)) = slots w \<and>
   bus (snd (newBlockAndTick M blk w)) = bus w @ [newBlock blk]"
proof -
  let ?w1 = "bus_send (newBlock blk) w"
  obtain err w2 where c: "call (rounds_tick M (heap ?w1 blk)) ?w1 = (err, w2)"
    by (cases "call (rounds_tick M (heap ?w1 blk)) ?w1")
  have "core w2 = core ?w1" using core_call [of "rounds_tick M (heap ?w1 blk)" ?w1] c by simp
  moreover have "snd (newBlockAndTick M blk w) = w2"
    by (simp add: newBlockAndTick_def Let_def c split: option.splits)
  ultimately show ?thesis
    by (simp add: core_def slots_def bus_send_def)
qed

lemma saveBlockStep_frame:
  fixes M :: "('a, 'd, 'm) modules" and w :: "('d, 'm) world" and blk :: ref and saveBlk :: bool
  defines "s \<equiv> saveBlock M blk True (w\<lparr>lastBlock := blk\<rparr>)"
  defines "w' \<equiv> snd (saveBlockStep M blk saveBlk w)"
  shows "slots w' = slots (w\<lparr>lastBlock := blk\<rparr>) \<and>
         (\<exists>X. bus w' = bus w @ X \<and> (newBlock blk \<in> set X) = (saveBlk \<longrightarrow> \<not> isError (fst s)))"
proof (cases saveBlk)
  case False
  then show ?thesis
    using newBlockAndTick_frame [of M blk "w\<lparr>lastBlock := blk\<rparr>"]
    by (simp add: w'_def saveBlockStep_def Let_def)
next
  case True
  obtain err w2 where sb: "saveBlock M blk True (w\<lparr>lastBlock := blk\<rparr>) = (err, w2)"
    by (cases "saveBlock M blk True (w\<lparr>lastBlock := blk\<rparr>)")
  from saveBlock_frame [of M blk True "w\<lparr>lastBlock := blk\<rparr>"] sb
  obtain X where s2: "slots w2 = slots (w\<lparr>lastBlock := blk\<rparr>)"
    and b2: "bus w2 = bus w @ X" and nX: "newBlock blk \<notin> set X" by auto
  show ?thesis
  proof (cases "isError err")
    case e: True
    then show ?thesis using True sb s2 b2 nX
      by (simp add: w'_def s_def saveBlockStep_def Let_def write_log_def slots_def)
  next
    case e: False
    let ?w3 = "write_log Debug [LText ''Block applied correctly with '',
                        LNum (length (transactions (heap w2 blk))),
                        LText '' transactions''] w2"
    have "w' = snd (newBlockAndTick M blk ?w3)"
      using True sb e by (simp add: w'_def saveBlockStep_def Let_def)
    then show ?thesis
      using newBlockAndTick_frame [of M blk ?w3] s2 b2 nX True sb e
      by (simp add: s_def write_log_def slots_def)
  qed
qed

lemma core_fold_remove:
  "core (fold (\<lambda>t. call_void (transactions_removeUnconfirmedTransaction M (t_id t))) ts v) = core v"
  by (induction ts arbitrary: v) (simp_all add: core_call_void)

text \<open>applyBlock writes the Last-Block Register and never reads it.\<close>

lemma call_reg:
  "call f (w\<lparr>lastBlock := r\<rparr>) = (fst (call f w), (snd (call f w))\<lparr>lastBlock := r\<rparr>)"
  by (simp add: call_def split: prod.splits)

lemma mapSeries_reg:
  assumes "\<And>x v. f x (v\<lparr>lastBlock := r\<rparr>) = (fst (f x v), (snd (f x v))\<lparr>lastBlock := r\<rparr>)"
  shows "mapSeries f xs (w\<lparr>lastBlock := r\<rparr>) =
         (fst (mapSeries f xs w), (snd (mapSeries f xs w))\<lparr>lastBlock := r\<rparr>)"
proof (induction xs arbitrary: w)
  case Nil
  show ?case by simp
next
  case (Cons x xs)
  obtain q v where fx: "f x w = (q, v)" by (cases "f x w")
  have "f x (w\<lparr>lastBlock := r\<rparr>) = (q, v\<lparr>lastBlock := r\<rparr>)"
    using assms [of x w] fx by simp
  then show ?case using fx Cons [of v] by (cases q) simp_all
qed

lemma undoUnconfirmedListStep_reg:
  "undoUnconfirmedListStep M (w\<lparr>lastBlock := r\<rparr>) =
     (fst (undoUnconfirmedListStep M w), (snd (undoUnconfirmedListStep M w))\<lparr>lastBlock := r\<rparr>)"
proof -
  obtain e v where c: "call (transactions_undoUnconfirmedList M) w = (e, v)"
    by (cases "call (transactions_undoUnconfirmedList M) w")
  have "call (transactions_undoUnconfirmedList M) (w\<lparr>lastBlock := r\<rparr>) = (e, v\<lparr>lastBlock := r\<rparr>)"
    using call_reg [where f = "transactions_undoUnconfirmedList M" and w = w and r = r] c by simp
  then show ?thesis
    using c by (simp add: undoUnconfirmedListStep_def write_log_def)
qed

lemma applyUnconfirmedOne_reg:
  "applyUnconfirmedOne M t (w\<lparr>lastBlock := r\<rparr>) =
     (fst (applyUnconfirmedOne M t w), (snd (applyUnconfirmedOne M t w))\<lparr>lastBlock := r\<rparr>)"
proof -
  obtain e sender v where c1: "call (accounts_setAccountAndGet M (senderPublicKey t)) w = ((e, sender), v)"
    by (cases "call (accounts_setAccountAndGet M (senderPublicKey t)) w") auto
  obtain e2 v2 where c2: "call (transactions_applyUnconfirmed M t sender) v = (e2, v2)"
    by (cases "call (transactions_applyUnconfirmed M t sender) v")
  have 1: "call (accounts_setAccountAndGet M (senderPublicKey t)) (w\<lparr>lastBlock := r\<rparr>) = ((e, sender), v\<lparr>lastBlock := r\<rparr>)"
    using call_reg [where f = "accounts_setAccountAndGet M (senderPublicKey t)" and w = w and r = r] c1 by simp
  have 2: "call (transactions_applyUnconfirmed M t sender) (v\<lparr>lastBlock := r\<rparr>) = (e2, v2\<lparr>lastBlock := r\<rparr>)"
    using call_reg [where f = "transactions_applyUnconfirmed M t sender" and w = v and r = r] c2 by simp
  show ?thesis
    by (simp add: applyUnconfirmedOne_def c1 c2 1 2 Let_def write_log_def)
qed

lemma applyConfirmedOne_reg:
  "applyConfirmedOne M blk t (w\<lparr>lastBlock := r\<rparr>) =
     (fst (applyConfirmedOne M blk t w), (snd (applyConfirmedOne M blk t w))\<lparr>lastBlock := r\<rparr>)"
proof -
  obtain e sender where c1: "accounts_getAccount M (senderPublicKey t) (db w, mem w) = (e, sender)"
    by (cases "accounts_getAccount M (senderPublicKey t) (db w, mem w)")
  obtain e2 v2 where c2: "call (transactions_apply M t (heap w blk) sender) w = (e2, v2)"
    by (cases "call (transactions_apply M t (heap w blk) sender) w")
  have 2: "call (transactions_apply M t (heap w blk) sender) (w\<lparr>lastBlock := r\<rparr>) = (e2, v2\<lparr>lastBlock := r\<rparr>)"
    using call_reg [where f = "transactions_apply M t (heap w blk) sender" and w = w and r = r] c2 by simp
  show ?thesis
    by (simp add: applyConfirmedOne_def c1 c2 2 Let_def write_log_def)
qed

lemma applyUnconfirmedStep_reg:
  "applyUnconfirmedStep M blk (w\<lparr>lastBlock := r\<rparr>) =
     (fst (applyUnconfirmedStep M blk w), (snd (applyUnconfirmedStep M blk w))\<lparr>lastBlock := r\<rparr>)"
  unfolding applyUnconfirmedStep_def
  using mapSeries_reg [where f = "applyUnconfirmedOne M" and r = r and xs = "transactions (heap w blk)" and w = w]
  by (simp add: applyUnconfirmedOne_reg)

lemma applyConfirmedStep_reg:
  "applyConfirmedStep M blk (w\<lparr>lastBlock := r\<rparr>) =
     (fst (applyConfirmedStep M blk w), (snd (applyConfirmedStep M blk w))\<lparr>lastBlock := r\<rparr>)"
  unfolding applyConfirmedStep_def
  using mapSeries_reg [where f = "applyConfirmedOne M blk" and r = r and xs = "transactions (heap w blk)" and w = w]
  by (simp add: applyConfirmedOne_reg)

lemma applyBlock_tx_register_blind:
  "fst (applyBlock_tx M blk saveBlk (w\<lparr>lastBlock := r\<rparr>)) = fst (applyBlock_tx M blk saveBlk w)"
proof -
  obtain ra wa where a: "applyUnconfirmedStep M blk (w\<lparr>isActive := True\<rparr>) = (ra, wa)"
    by (cases "applyUnconfirmedStep M blk (w\<lparr>isActive := True\<rparr>)")
  have sw: "w\<lparr>lastBlock := r, isActive := True\<rparr> = w\<lparr>isActive := True, lastBlock := r\<rparr>"
    by (cases w) simp
  have a': "applyUnconfirmedStep M blk (w\<lparr>lastBlock := r, isActive := True\<rparr>) = (ra, wa\<lparr>lastBlock := r\<rparr>)"
    unfolding sw
    using applyUnconfirmedStep_reg [where M = M and blk = blk and w = "w\<lparr>isActive := True\<rparr>" and r = r] a
    by simp
  obtain rc wc where c: "applyConfirmedStep M blk wa = (rc, wc)"
    by (cases "applyConfirmedStep M blk wa")
  have c': "applyConfirmedStep M blk (wa\<lparr>lastBlock := r\<rparr>) = (rc, wc\<lparr>lastBlock := r\<rparr>)"
    using applyConfirmedStep_reg [where M = M and blk = blk and w = wa and r = r] c by simp
  have s: "saveBlockStep M blk saveBlk (wc\<lparr>lastBlock := r\<rparr>) = saveBlockStep M blk saveBlk wc"
    by (simp add: saveBlockStep_def)
  show ?thesis
    by (cases ra; cases rc) (simp_all add: applyBlock_tx_def a a' c c' s)
qed

lemma applyBlock_register_blind:
  "fst (applyBlock M blk saveBlk (w\<lparr>lastBlock := r\<rparr>)) = fst (applyBlock M blk saveBlk w)"
proof -
  obtain e w1 where u: "undoUnconfirmedListStep M w = (e, w1)"
    by (cases "undoUnconfirmedListStep M w")
  have u': "undoUnconfirmedListStep M (w\<lparr>lastBlock := r\<rparr>) = (e, w1\<lparr>lastBlock := r\<rparr>)"
    using undoUnconfirmedListStep_reg [where M = M and w = w and r = r] u by simp
  obtain q v where t: "db_tx (applyBlock_tx M blk saveBlk) w1 = (q, v)"
    by (cases "db_tx (applyBlock_tx M blk saveBlk) w1")
  obtain q' v' where t': "db_tx (applyBlock_tx M blk saveBlk) (w1\<lparr>lastBlock := r\<rparr>) = (q', v')"
    by (cases "db_tx (applyBlock_tx M blk saveBlk) (w1\<lparr>lastBlock := r\<rparr>)")
  have "fst (db_tx (applyBlock_tx M blk saveBlk) (w1\<lparr>lastBlock := r\<rparr>)) =
        fst (db_tx (applyBlock_tx M blk saveBlk) w1)"
    by (simp add: db_tx_fst applyBlock_tx_register_blind)
  then have "q' = q" using t t' by simp
  then show ?thesis
    by (cases q) (simp_all add: applyBlock_def u u' t t' Let_def)
qed

lemma applyBlock_success_register:
  assumes "fst (applyBlock M blk saveBlk w) = Callback None"
  shows "lastBlock (snd (applyBlock M blk saveBlk w)) = blk"
proof -
  obtain e w1 where u: "undoUnconfirmedListStep M w = (e, w1)"
    by (cases "undoUnconfirmedListStep M w")
  obtain rt wt where t: "db_tx (applyBlock_tx M blk saveBlk) w1 = (rt, wt)"
    by (cases "db_tx (applyBlock_tx M blk saveBlk) w1")
  from assms u t have ne: "\<not> isError e" and rt: "rt = Inr ()"
    by (auto simp: applyBlock_def Let_def split: if_splits sum.splits)
  obtain ra wa where a: "applyUnconfirmedStep M blk (w1\<lparr>isActive := True\<rparr>) = (ra, wa)"
    by (cases "applyUnconfirmedStep M blk (w1\<lparr>isActive := True\<rparr>)")
  obtain rc wc where c: "applyConfirmedStep M blk wa = (rc, wc)"
    by (cases "applyConfirmedStep M blk wa")
  have "fst (applyBlock_tx M blk saveBlk w1) = Inr ()"
    using t rt db_tx_fst [of "applyBlock_tx M blk saveBlk" w1] by simp
  then have tx: "applyBlock_tx M blk saveBlk w1 = saveBlockStep M blk saveBlk wc"
    using a c by (cases ra; cases rc) (simp_all add: applyBlock_tx_def)
  have "slots wt = slots (snd (applyBlock_tx M blk saveBlk w1))"
    using db_tx_slots [of "applyBlock_tx M blk saveBlk" w1] t by simp
  then have "lastBlock wt = blk"
    using tx saveBlockStep_frame [of M blk saveBlk wc] by (simp add: slots_def)
  then show ?thesis
    using u t ne rt core_fold_remove [of M "transactions (heap wt blk)" wt]
    by (simp add: applyBlock_def Let_def core_def)
qed

lemma applyBlock_tx_signals:
  "signals (snd (applyBlock_tx M blk saveBlk w)) = signals w"
proof -
  obtain ra wa where a: "applyUnconfirmedStep M blk (w\<lparr>isActive := True\<rparr>) = (ra, wa)"
    by (cases "applyUnconfirmedStep M blk (w\<lparr>isActive := True\<rparr>)")
  have ca: "core wa = core (w\<lparr>isActive := True\<rparr>)"
    using core_applyUnconfirmedStep [of M blk "w\<lparr>isActive := True\<rparr>"] a by simp
  obtain rc wc where c: "applyConfirmedStep M blk wa = (rc, wc)"
    by (cases "applyConfirmedStep M blk wa")
  have cc: "core wc = core wa" using core_applyConfirmedStep [of M blk wa] c by simp
  show ?thesis
    using ca cc saveBlockStep_frame [of M blk saveBlk wc]
    by (cases ra; cases rc) (simp_all add: applyBlock_tx_def a c core_def slots_def)
qed

section \<open>Lemmas on deleting the last block\<close>

lemma core_undoStep: "core (snd (undoStep M old t w)) = core w"
proof -
  obtain e sender where c1: "accounts_getAccount M (senderPublicKey t) (db w, mem w) = (e, sender)"
    by (cases "accounts_getAccount M (senderPublicKey t) (db w, mem w)")
  obtain e2 w2 where c2: "call (transactions_undo M t (heap w old) sender) w = (e2, w2)"
    by (cases "call (transactions_undo M t (heap w old) sender) w")
  have 2: "core w2 = core w" using core_call [where f = "transactions_undo M t (heap w old) sender" and w = w] c2 by simp
  show ?thesis
    by (simp add: undoStep_def c1 c2 2 core_write_log split: option.splits)
qed

lemma core_undoUnconfirmStep: "core (snd (undoUnconfirmStep M t w)) = core w"
proof -
  obtain e2 w2 where c2: "call (transactions_undoUnconfirmed M t) w = (e2, w2)"
    by (cases "call (transactions_undoUnconfirmed M t) w")
  have 2: "core w2 = core w" using core_call [where f = "transactions_undoUnconfirmed M t" and w = w] c2 by simp
  show ?thesis
    by (simp add: undoUnconfirmStep_def c2 2 core_write_log split: option.splits)
qed

lemma core_undoBoth:
  "core (snd (case undoStep M old t w of
                (Inl r, v1) \<Rightarrow> (Inl r, v1)
              | (Inr _, v1) \<Rightarrow> undoUnconfirmStep M t v1)) = core w"
proof -
  obtain q v where u: "undoStep M old t w = (q, v)" by (cases "undoStep M old t w")
  have "core v = core w" using core_undoStep [where M = M and old = old and t = t and w = w] u by simp
  then show ?thesis using u core_undoUnconfirmStep [where M = M and t = t and w = v] by (cases q) simp_all
qed

lemma core_backwardTickStep: "core (snd (backwardTickStep M old p w)) = core w"
proof -
  obtain e2 w2 where c2: "call (rounds_backwardTick M (heap w old) (heap w p)) w = (e2, w2)"
    by (cases "call (rounds_backwardTick M (heap w old) (heap w p)) w")
  have 2: "core w2 = core w" using core_call [where f = "rounds_backwardTick M (heap w old) (heap w p)" and w = w] c2 by simp
  show ?thesis
    by (simp add: backwardTickStep_def c2 2 core_write_log split: option.splits)
qed

lemma core_deleteBlock: "core (snd (deleteBlock M i w)) = core w"
proof -
  obtain e2 w2 where c2: "call (db_blocks_deleteBlock M i) w = (e2, w2)"
    by (cases "call (db_blocks_deleteBlock M i) w")
  have 2: "core w2 = core w" using core_call [where f = "db_blocks_deleteBlock M i" and w = w] c2 by simp
  show ?thesis
    by (cases e2) (simp_all add: deleteBlock_def c2 2 core_write_log)
qed

lemma core_deleteBlockStep: "core (snd (deleteBlockStep M old w)) = core w"
proof -
  obtain e2 w2 where c2: "deleteBlock M (b_id (heap w old)) w = (e2, w2)"
    by (cases "deleteBlock M (b_id (heap w old)) w")
  have 2: "core w2 = core w" using core_deleteBlock [where M = M and i = "b_id (heap w old)" and w = w] c2 by simp
  show ?thesis
    by (simp add: deleteBlockStep_def c2 2 core_write_log split: option.splits)
qed

text \<open>What popLastBlock does to the objects when it hands over a parent.\<close>

lemma popLastBlock_tx_objects:
  assumes "popLastBlock_tx M old w = (Inr p, w')"
  shows "p = lim w \<and> lim w' = Suc (lim w) \<and> lastBlock w' = lastBlock w \<and>
         isActive w' = isActive w \<and> bus w' = bus w \<and> signals w' = signals w \<and>
         (\<exists>parent. hd (snd (blocks_utils_loadBlocksPart M (previousBlock (heap w old)) (db w, mem w))) = parent \<and>
            heap w' = (let h = (heap w)(lim w := parent)
                       in h(old := (h old)\<lparr>transactions := rev (transactions (h old))\<rparr>)))"
proof -
  obtain q w1 where l: "loadSecondLastBlockStep M (previousBlock (heap w old)) w = (q, w1)"
    by (cases "loadSecondLastBlockStep M (previousBlock (heap w old)) w")
  from assms l obtain p1 where q: "q = Inr p1"
    by (cases q) (simp_all add: popLastBlock_tx_def)
  let ?parent = "hd (snd (blocks_utils_loadBlocksPart M (previousBlock (heap w old)) (db w, mem w)))"
  from l q have p1: "p1 = lim w"
    and w1: "w1 = w\<lparr>heap := (heap w)(lim w := ?parent), lim := Suc (lim w)\<rparr>"
    by (auto simp: loadSecondLastBlockStep_def split: prod.splits if_splits)
  let ?w2 = "reverse_transactions old w1"
  let ?loop = "mapSeries
                     (\<lambda>t v. case undoStep M old t v of
                               (Inl r, v1) \<Rightarrow> (Inl r, v1)
                             | (Inr _, v1) \<Rightarrow> undoUnconfirmStep M t v1)
                     (transactions (heap ?w2 old)) ?w2"
  obtain q3 w3 where m: "?loop = (q3, w3)" by (cases ?loop)
  have c3: "core w3 = core ?w2"
    using core_mapSeries [where f = "\<lambda>t v. case undoStep M old t v of
                               (Inl r, v1) \<Rightarrow> (Inl r, v1)
                             | (Inr _, v1) \<Rightarrow> undoUnconfirmStep M t v1"
                           and xs = "transactions (heap ?w2 old)" and s = ?w2,
                           OF core_undoBoth [where M = M and old = old]] m
    by simp
  from assms l q m obtain u where q3: "q3 = Inr u"
    by (cases q3) (simp_all add: popLastBlock_tx_def Let_def)
  obtain q4 w4 where b: "backwardTickStep M old p1 w3 = (q4, w4)"
    by (cases "backwardTickStep M old p1 w3")
  have c4: "core w4 = core w3" using core_backwardTickStep [where M = M and old = old and p = p1 and w = w3] b by simp
  from assms l q m q3 b obtain u4 where q4: "q4 = Inr u4"
    by (cases q4) (simp_all add: popLastBlock_tx_def Let_def)
  obtain q5 w5 where d: "deleteBlockStep M old w4 = (q5, w5)"
    by (cases "deleteBlockStep M old w4")
  have c5: "core w5 = core w4" using core_deleteBlockStep [where M = M and old = old and w = w4] d by simp
  from assms l q m q3 b q4 d have fin: "p = p1 \<and> w' = w5"
    by (cases q5) (simp_all add: popLastBlock_tx_def Let_def)
  have "core w' = core ?w2" using fin c5 c4 c3 by simp
  then show ?thesis
    using fin p1 w1 by (simp add: core_def reverse_transactions_def Let_def)
qed

lemma popLastBlock_objects:
  assumes "popLastBlock M old w = (Callback p, w')"
  shows "p = lim w \<and> lim w' = Suc (lim w) \<and> lastBlock w' = lastBlock w \<and>
         isActive w' = isActive w \<and> bus w' = bus w \<and> signals w' = signals w \<and>
         heap w' = (let h = (heap w)(lim w := hd (snd (blocks_utils_loadBlocksPart M (previousBlock (heap w old)) (db w, mem w))))
                    in h(old := (h old)\<lparr>transactions := rev (transactions (h old))\<rparr>))"
proof -
  obtain q v where t: "popLastBlock_tx M old w = (q, v)" by (cases "popLastBlock_tx M old w")
  from assms t have q: "q = Inr p"
    by (cases q) (simp_all add: popLastBlock_def db_tx_def)
  have "core w' = core v"
    using assms t q by (simp add: popLastBlock_def db_tx_def core_def)
  then show ?thesis
    using popLastBlock_tx_objects [where M = M and old = old and w = w and p = p and w' = v] t q by (simp add: core_def)
qed

section \<open>Lemmas on the genesis block\<close>

text \<open>The compare function of applyGenesisBlock under the two sorts.\<close>

lemma genesis_comparefn_nonneg: "genesis_comparefn a b \<ge> 0"
  by (simp add: genesis_comparefn_def)

lemma insertion_shift_genesis:
  assumes "\<forall>v \<in> set V. t_type v = VOTE" and "\<forall>n \<in> set N. t_type n \<noteq> VOTE"
  shows "insertion_shift genesis_comparefn e (V @ N) = V @ e # N"
  using assms
proof (induction V)
  case Nil
  then show ?case by (cases N) (simp_all add: genesis_comparefn_def)
next
  case (Cons v V)
  then show ?case by (simp add: genesis_comparefn_def)
qed

lemma foldl_insertion_shift_genesis:
  assumes "\<forall>v \<in> set V. t_type v = VOTE" and "\<forall>n \<in> set N. t_type n \<noteq> VOTE"
  shows "foldl (\<lambda>placed element. insertion_shift genesis_comparefn element placed) (V @ N) xs =
         (V @ filter (\<lambda>t. t_type t = VOTE) xs) @ (rev (filter (\<lambda>t. t_type t \<noteq> VOTE) xs) @ N)"
  using assms
proof (induction xs arbitrary: V N)
  case Nil
  show ?case by simp
next
  case (Cons x xs)
  show ?case
  proof (cases "t_type x = VOTE")
    case True
    have "foldl (\<lambda>placed element. insertion_shift genesis_comparefn element placed) ((V @ [x]) @ N) xs =
          ((V @ [x]) @ filter (\<lambda>t. t_type t = VOTE) xs) @ (rev (filter (\<lambda>t. t_type t \<noteq> VOTE) xs) @ N)"
      using Cons.prems True by (intro Cons.IH) auto
    then show ?thesis
      using True insertion_shift_genesis [OF Cons.prems, of x] by simp
  next
    case False
    have "foldl (\<lambda>placed element. insertion_shift genesis_comparefn element placed) (V @ (x # N)) xs =
          (V @ filter (\<lambda>t. t_type t = VOTE) xs) @ (rev (filter (\<lambda>t. t_type t \<noteq> VOTE) xs) @ (x # N))"
      using Cons.prems False by (intro Cons.IH) auto
    then show ?thesis
      using False insertion_shift_genesis [OF Cons.prems, of x] by simp
  qed
qed

lemma InsertionSort_genesis:
  "InsertionSort genesis_comparefn xs =
     filter (\<lambda>t. t_type t \<noteq> VOTE) xs @ rev (filter (\<lambda>t. t_type t = VOTE) xs)"
  using foldl_insertion_shift_genesis [of "[]" "[]" xs]
  by (simp add: InsertionSort_def)

lemma run_length_nonneg:
  assumes "\<And>a b. comparefn a b \<ge> (0::int)"
  shows "run_length False comparefn prev rest = length rest"
proof (induction rest arbitrary: prev)
  case Nil
  show ?case by simp
next
  case (Cons x rest)
  have "\<not> comparefn x prev < 0" using assms [of x prev] by simp
  then show ?case using Cons by (simp add: Let_def)
qed

lemma TimSort_short_nonneg:
  assumes "\<And>a b. comparefn a b \<ge> (0::int)"
  shows "TimSort_short comparefn xs = xs"
proof (cases xs)
  case Nil
  then show ?thesis by (simp add: TimSort_short_def CountAndMakeRun_def)
next
  case (Cons x ys)
  show ?thesis
  proof (cases ys)
    case Nil
    then show ?thesis using Cons by (simp add: TimSort_short_def CountAndMakeRun_def)
  next
    case (Cons y zs)
    have "\<not> comparefn y x < 0" using assms [of y x] by simp
    then show ?thesis
      using \<open>xs = x # ys\<close> Cons run_length_nonneg [where comparefn = comparefn and prev = y and rest = zs, OF assms]
      by (simp add: TimSort_short_def CountAndMakeRun_def Let_def)
  qed
qed

lemma TimSort_short_genesis: "TimSort_short genesis_comparefn xs = xs"
  by (rule TimSort_short_nonneg) (rule genesis_comparefn_nonneg)

lemma eachSeries_spec_afterSave:
  fixes w :: "(store, memory) world"
  shows "eachSeries (\<lambda>t. call (logic_transaction_afterSave (spec_modules g) t)) ts w = (None, w)"
  by (induction ts) (simp_all add: call_def spec_modules_def spec_afterSave_def)

lemma spec_afterSave:
  fixes w :: "(store, memory) world"
  shows "afterSave (spec_modules g) blk w = (None, bus_send (transactionsSaved (transactions (heap w blk))) w)"
  by (simp add: afterSave_def Let_def eachSeries_spec_afterSave)







section \<open>Lemmas on the modelled collaborators\<close>

text \<open>Crediting what was debited.\<close>

lemma credit_debit: "credit t (debit t f) = f"
  by (simp add: credit_def debit_def fun_eq_iff)

lemma fold_credit_debit: "fold credit (rev ts) (fold debit ts f) = f"
  by (induction ts arbitrary: f) (simp_all add: credit_debit)

lemma credit_blockId: "credit (t\<lparr>blockId := x\<rparr>) = credit t"
  by (simp add: credit_def fun_eq_iff)

lemma fold_credit_blockId:
  "fold credit (map (\<lambda>t. t\<lparr>blockId := x\<rparr>) ts) f = fold credit ts f"
  by (induction ts arbitrary: f) (simp_all add: credit_blockId)

text \<open>The steps of applyBlock on the collaborators modelled from the spec.\<close>

lemma spec_undoUnconfirmedListStep:
  fixes w :: "(store, memory) world"
  shows "undoUnconfirmedListStep (spec_modules g) w =
    (None, w\<lparr>db := (db w)\<lparr>acc_u_balance := fold credit (unconfirmed (mem w)) (acc_u_balance (db w))\<rparr>,
             mem := mem w\<rparr>)"
  by (simp add: undoUnconfirmedListStep_def call_def spec_modules_def spec_undoUnconfirmedList_def)

lemma spec_applyUnconfirmedOne:
  fixes v :: "(store, memory) world"
  assumes "applyUnconfirmedOne (spec_modules g) t v = (Inr u, v')"
  shows "core v' = core v \<and> db v' = (db v)\<lparr>acc_u_balance := debit t (acc_u_balance (db v))\<rparr> \<and>
         unconfirmed (mem v') = unconfirmed (mem v)"
  using assms
  by (auto simp add: applyUnconfirmedOne_def call_def spec_modules_def spec_setAccountAndGet_def
        spec_getAccount_def spec_applyUnconfirmed_def journal_add_def core_def Let_def
        split: if_splits)

lemma spec_applyUnconfirmedLoop:
  fixes v :: "(store, memory) world"
  assumes "mapSeries (applyUnconfirmedOne (spec_modules g)) ts v = (Inr u, v')"
  shows "core v' = core v \<and> db v' = (db v)\<lparr>acc_u_balance := fold debit ts (acc_u_balance (db v))\<rparr> \<and>
         unconfirmed (mem v') = unconfirmed (mem v)"
  using assms
proof (induction ts arbitrary: v)
  case Nil
  then show ?case by simp
next
  case (Cons t ts)
  obtain q v1 where o: "applyUnconfirmedOne (spec_modules g) t v = (q, v1)"
    by (cases "applyUnconfirmedOne (spec_modules g) t v")
  with Cons.prems obtain u1 where q: "q = Inr u1" by (cases q) simp_all
  from Cons.prems o q have r: "mapSeries (applyUnconfirmedOne (spec_modules g)) ts v1 = (Inr u, v')" by simp
  from spec_applyUnconfirmedOne [where g = g and t = t and v = v and v' = v1 and u = u1] o q
  have 1: "core v1 = core v" "db v1 = (db v)\<lparr>acc_u_balance := debit t (acc_u_balance (db v))\<rparr>"
    "unconfirmed (mem v1) = unconfirmed (mem v)" by simp_all
  from Cons.IH [OF r] 1 show ?case by simp
qed

lemma spec_applyConfirmedOne:
  fixes v :: "(store, memory) world"
  assumes "applyConfirmedOne (spec_modules g) blk t v = (Inr u, v')"
  shows "core v' = core v \<and> db v' = (db v)\<lparr>acc_balance := debit t (acc_balance (db v))\<rparr> \<and>
         unconfirmed (mem v') = unconfirmed (mem v)"
  using assms
  by (auto simp add: applyConfirmedOne_def call_def spec_modules_def
        spec_getAccount_def spec_apply_def journal_add_def core_def Let_def
        split: if_splits)

lemma spec_applyConfirmedLoop:
  fixes v :: "(store, memory) world"
  assumes "mapSeries (applyConfirmedOne (spec_modules g) blk) ts v = (Inr u, v')"
  shows "core v' = core v \<and> db v' = (db v)\<lparr>acc_balance := fold debit ts (acc_balance (db v))\<rparr> \<and>
         unconfirmed (mem v') = unconfirmed (mem v)"
  using assms
proof (induction ts arbitrary: v)
  case Nil
  then show ?case by simp
next
  case (Cons t ts)
  obtain q v1 where o: "applyConfirmedOne (spec_modules g) blk t v = (q, v1)"
    by (cases "applyConfirmedOne (spec_modules g) blk t v")
  with Cons.prems obtain u1 where q: "q = Inr u1" by (cases q) simp_all
  from Cons.prems o q have r: "mapSeries (applyConfirmedOne (spec_modules g) blk) ts v1 = (Inr u, v')" by simp
  from spec_applyConfirmedOne [where g = g and blk = blk and t = t and v = v and v' = v1 and u = u1] o q
  have 1: "core v1 = core v" "db v1 = (db v)\<lparr>acc_balance := debit t (acc_balance (db v))\<rparr>"
    "unconfirmed (mem v1) = unconfirmed (mem v)" by simp_all
  from Cons.IH [OF r] 1 show ?case by simp
qed

lemma spec_undoBoth:
  fixes v :: "(store, memory) world"
  shows "(case undoStep (spec_modules g) old t v of
            (Inl r, v1) \<Rightarrow> (Inl r, v1)
          | (Inr _, v1) \<Rightarrow> undoUnconfirmStep (spec_modules g) t v1) =
         (Inr (), v\<lparr>db := (db v)\<lparr>acc_balance := credit t (acc_balance (db v)),
                                  acc_u_balance := credit t (acc_u_balance (db v))\<rparr>,
                     mem := journal_add ''undoUnconfirmed'' t (journal_add ''undo'' t (mem v))\<rparr>)"
  by (simp add: undoStep_def undoUnconfirmStep_def call_def truthy_def spec_modules_def
        spec_getAccount_def spec_undo_def spec_undoUnconfirmed_def)

lemma spec_undoLoop:
  fixes v :: "(store, memory) world"
  assumes "mapSeries (\<lambda>t v. case undoStep (spec_modules g) old t v of
                               (Inl r, v1) \<Rightarrow> (Inl r, v1)
                             | (Inr _, v1) \<Rightarrow> undoUnconfirmStep (spec_modules g) t v1) ts v = (q, v')"
  shows "q = Inr () \<and> core v' = core v \<and>
         acc_balance (db v') = fold credit ts (acc_balance (db v)) \<and>
         acc_u_balance (db v') = fold credit ts (acc_u_balance (db v)) \<and>
         blocks_table (db v') = blocks_table (db v) \<and> trs_table (db v') = trs_table (db v) \<and>
         unconfirmed (mem v') = unconfirmed (mem v)"
  using assms
proof (induction ts arbitrary: v)
  case Nil
  then show ?case by auto
next
  case (Cons t ts)
  let ?v1 = "v\<lparr>db := (db v)\<lparr>acc_balance := credit t (acc_balance (db v)),
                                  acc_u_balance := credit t (acc_u_balance (db v))\<rparr>,
                     mem := journal_add ''undoUnconfirmed'' t (journal_add ''undo'' t (mem v))\<rparr>"
  from Cons.prems have r: "mapSeries (\<lambda>t v. case undoStep (spec_modules g) old t v of
                               (Inl r, v1) \<Rightarrow> (Inl r, v1)
                             | (Inr _, v1) \<Rightarrow> undoUnconfirmStep (spec_modules g) t v1) ts ?v1 = (q, v')"
    by (simp add: spec_undoBoth)
  from Cons.IH [OF r] show ?case by (simp add: core_def journal_add_def)
qed


text \<open>Saving a block on the modelled persistence layer.\<close>

lemma spec_saveBlockBatch_ok:
  fixes v :: "(store, memory) world"
  assumes "saveBlockBatch (spec_modules g) blk v = (Inr u, v')"
  shows "core v' = core v \<and> mem v' = mem v \<and>
         b_id (heap v blk) \<notin> set (map b_id (blocks_table (db v))) \<and>
         db v' = (db v)\<lparr>blocks_table := blocks_table (db v) @ [(heap v blk)\<lparr>transactions := []\<rparr>],
                         trs_table := trs_table (db v) @ transactions (heap v blk)\<rparr>"
  using assms
  by (auto simp add: saveBlockBatch_def call_def spec_modules_def spec_blocks_save_def
        spec_transactions_save_def core_def split: if_splits)

lemma spec_saveBlock_ok:
  fixes v :: "(store, memory) world"
  assumes "saveBlock (spec_modules g) blk True v = (err, v')" and "\<not> isError err"
  shows "slots v' = slots v \<and> heap v' = heap (assignBlockId blk v) \<and> mem v' = mem v \<and>
         b_id (heap v blk) \<notin> set (map b_id (blocks_table (db v))) \<and>
         db v' = (db v)\<lparr>blocks_table := blocks_table (db v) @ [(heap (assignBlockId blk v) blk)\<lparr>transactions := []\<rparr>],
                         trs_table := trs_table (db v) @ transactions (heap (assignBlockId blk v) blk)\<rparr>"
proof -
  let ?w0 = "assignBlockId blk v"
  obtain q wb where b: "saveBlockBatch (spec_modules g) blk ?w0 = (q, wb)"
    by (cases "saveBlockBatch (spec_modules g) blk ?w0")
  from assms b obtain u where q: "q = Inr u"
    by (cases q) (auto simp: saveBlock_def Let_def)
  from spec_saveBlockBatch_ok [where g = g and blk = blk and v = ?w0 and u = u and v' = wb] b q
  have e: "core wb = core ?w0" "mem wb = mem ?w0"
    "b_id (heap ?w0 blk) \<notin> set (map b_id (blocks_table (db ?w0)))"
    "db wb = (db ?w0)\<lparr>blocks_table := blocks_table (db ?w0) @ [(heap ?w0 blk)\<lparr>transactions := []\<rparr>],
                         trs_table := trs_table (db ?w0) @ transactions (heap ?w0 blk)\<rparr>"
    by simp_all
  have "v' = bus_send (transactionsSaved (transactions (heap wb blk))) wb"
    using assms(1) b q by (simp add: saveBlock_def Let_def spec_afterSave)
  then show ?thesis
    using e by (simp add: bus_send_def core_def slots_def assignBlockId_def)
qed

lemma spec_newBlockAndTick:
  fixes v :: "(store, memory) world"
  shows "fst (newBlockAndTick (spec_modules g) blk v) = Inr () \<and>
         slots (snd (newBlockAndTick (spec_modules g) blk v)) = slots v \<and>
         heap (snd (newBlockAndTick (spec_modules g) blk v)) = heap v \<and>
         mem (snd (newBlockAndTick (spec_modules g) blk v)) = mem v \<and>
         db (snd (newBlockAndTick (spec_modules g) blk v)) = (db v)\<lparr>round_height := height (heap v blk)\<rparr>"
  by (simp add: newBlockAndTick_def Let_def call_def bus_send_def truthy_def spec_modules_def
        spec_tick_def slots_def)

lemma spec_loadBlocksPart_tables:
  assumes "blocks_table d' = blocks_table d" and "trs_table d' = trs_table d"
  shows "spec_loadBlocksPart i (d', m') = spec_loadBlocksPart i (d, m)"
  using assms by (simp add: spec_loadBlocksPart_def)

lemma spec_loadBlocksPart_after_save:
  assumes "blocks_table d' = blocks_table d @ [b0]" and "trs_table d' = trs_table d @ ts"
      and "b_id b0 \<noteq> i" and "\<forall>t \<in> set ts. blockId t \<noteq> Some i"
  shows "spec_loadBlocksPart (Some i) (d', m') = spec_loadBlocksPart (Some i) (d, m)"
proof -
  have "filter (\<lambda>t. blockId t = Some (b_id r)) ts = []" if "b_id r = i" for r :: block
    using assms(4) that by (simp add: filter_empty_conv)
  then show ?thesis
    using assms(1-3) by (auto simp add: spec_loadBlocksPart_def)
qed

lemma spec_saveBlockStep_ok:
  fixes v :: "(store, memory) world"
  assumes "saveBlockStep (spec_modules g) blk saveBlk v = (Inr u, v')"
  shows "lim v' = lim v \<and> lastBlock v' = blk \<and> mem v' = mem v \<and>
         heap v' = (if saveBlk then heap (assignBlockId blk v) else heap v) \<and>
         acc_balance (db v') = acc_balance (db v) \<and> acc_u_balance (db v') = acc_u_balance (db v) \<and>
         (\<forall>i \<in> set (map b_id (blocks_table (db v))). \<forall>m m'.
            spec_loadBlocksPart (Some i) (db v', m') = spec_loadBlocksPart (Some i) (db v, m))"
proof (cases saveBlk)
  case False
  then have "v' = snd (newBlockAndTick (spec_modules g) blk (v\<lparr>lastBlock := blk\<rparr>))"
    using assms by (simp add: saveBlockStep_def Let_def)
  then show ?thesis
    using False spec_newBlockAndTick [where g = g and blk = blk and v = "v\<lparr>lastBlock := blk\<rparr>"]
    by (simp add: spec_loadBlocksPart_def slots_def)
next
  case True
  let ?v1 = "v\<lparr>lastBlock := blk\<rparr>"
  obtain err v2 where s: "saveBlock (spec_modules g) blk True ?v1 = (err, v2)"
    by (cases "saveBlock (spec_modules g) blk True ?v1")
  from assms True s have ne: "\<not> isError err"
    by (auto simp: saveBlockStep_def Let_def split: if_splits)
  from spec_saveBlock_ok [OF s ne]
  have e: "slots v2 = slots ?v1" "heap v2 = heap (assignBlockId blk ?v1)" "mem v2 = mem ?v1"
    "b_id (heap ?v1 blk) \<notin> set (map b_id (blocks_table (db ?v1)))"
    "db v2 = (db ?v1)\<lparr>blocks_table := blocks_table (db ?v1) @ [(heap (assignBlockId blk ?v1) blk)\<lparr>transactions := []\<rparr>],
                         trs_table := trs_table (db ?v1) @ transactions (heap (assignBlockId blk ?v1) blk)\<rparr>"
    by simp_all
  let ?v3 = "write_log Debug [LText ''Block applied correctly with '',
                        LNum (length (transactions (heap v2 blk))),
                        LText '' transactions''] v2"
  have v': "v' = snd (newBlockAndTick (spec_modules g) blk ?v3)"
    using assms True s ne by (simp add: saveBlockStep_def Let_def)
  note t = spec_newBlockAndTick [where g = g and blk = blk and v = ?v3]
  have hv: "heap (assignBlockId blk ?v1) = heap (assignBlockId blk v)"
    by (simp add: assignBlockId_def)
  have load: "spec_loadBlocksPart (Some i) (db v', m') = spec_loadBlocksPart (Some i) (db v, m)"
    if "i \<in> set (map b_id (blocks_table (db v)))" for i m m'
  proof (rule spec_loadBlocksPart_after_save)
    show "blocks_table (db v') = blocks_table (db v) @ [(heap (assignBlockId blk ?v1) blk)\<lparr>transactions := []\<rparr>]"
      using v' t e by (simp add: write_log_def)
    show "trs_table (db v') = trs_table (db v) @ transactions (heap (assignBlockId blk ?v1) blk)"
      using v' t e by (simp add: write_log_def)
    show "b_id ((heap (assignBlockId blk ?v1) blk)\<lparr>transactions := []\<rparr>) \<noteq> i"
      using e(4) that by (auto simp: assignBlockId_def)
    show "\<forall>t \<in> set (transactions (heap (assignBlockId blk ?v1) blk)). blockId t \<noteq> Some i"
      using e(4) that by (auto simp: assignBlockId_def)
  qed
  have "lim v' = lim v \<and> lastBlock v' = blk \<and> mem v' = mem v \<and> heap v' = heap (assignBlockId blk v) \<and>
        acc_balance (db v') = acc_balance (db v) \<and> acc_u_balance (db v') = acc_u_balance (db v)"
    using v' t e hv by (simp add: write_log_def slots_def)
  then show ?thesis using True load by simp
qed

lemma spec_fold_remove:
  fixes v :: "(store, memory) world" and g :: ref
  defines "f \<equiv> \<lambda>t. call_void (transactions_removeUnconfirmedTransaction (spec_modules g) (t_id t))"
  shows "core (fold f ts v) = core v \<and> db (fold f ts v) = db v \<and>
         unconfirmed (mem (fold f ts v)) =
           filter (\<lambda>u. t_id u \<notin> set (map t_id ts)) (unconfirmed (mem v))"
proof (induction ts arbitrary: v)
  case Nil
  show ?case by simp
next
  case (Cons t ts)
  have 1: "core (f t v) = core v" "db (f t v) = db v"
    "unconfirmed (mem (f t v)) = filter (\<lambda>u. t_id u \<noteq> t_id t) (unconfirmed (mem v))"
    by (simp_all add: f_def call_void_def spec_modules_def spec_removeUnconfirmedTransaction_def core_def)
  have "fold f (t # ts) v = fold f ts (f t v)" by simp
  then show ?case
    using Cons [of "f t v"] 1 by (auto intro: filter_cong)
qed

text \<open>applyBlock as a whole, when it succeeds.\<close>

lemma spec_applyBlock_ok:
  fixes w :: "(store, memory) world"
  assumes "applyBlock (spec_modules g) blk saveBlk w = (Callback None, w1)"
  shows "lim w1 = lim w \<and> lastBlock w1 = blk \<and>
         heap w1 = (if saveBlk then heap (assignBlockId blk w) else heap w) \<and>
         acc_balance (db w1) = fold debit (transactions (heap w blk)) (acc_balance (db w)) \<and>
         acc_u_balance (db w1) =
           fold debit (transactions (heap w blk)) (fold credit (unconfirmed (mem w)) (acc_u_balance (db w))) \<and>
         unconfirmed (mem w1) =
           filter (\<lambda>u. t_id u \<notin> set (map t_id (transactions (heap w1 blk)))) (unconfirmed (mem w)) \<and>
         (\<forall>i \<in> set (map b_id (blocks_table (db w))).
            spec_loadBlocksPart (Some i) (db w1, mem w1) = spec_loadBlocksPart (Some i) (db w, mem w))"
proof -
  let ?M = "spec_modules g"
  obtain eu wu where u: "undoUnconfirmedListStep ?M w = (eu, wu)"
    by (cases "undoUnconfirmedListStep ?M w")
  from u have eu: "eu = None"
    and du: "db wu = (db w)\<lparr>acc_u_balance := fold credit (unconfirmed (mem w)) (acc_u_balance (db w))\<rparr>"
    and mu: "mem wu = mem w"
    by (auto simp: spec_undoUnconfirmedListStep)
  have cu: "core wu = core w" using core_undoUnconfirmedListStep [where M = ?M and w = w] u by simp
  obtain rt wt where t: "db_tx (applyBlock_tx ?M blk saveBlk) wu = (rt, wt)"
    by (cases "db_tx (applyBlock_tx ?M blk saveBlk) wu")
  from assms u eu t obtain uu where rt: "rt = Inr uu"
    by (cases rt) (simp_all add: applyBlock_def Let_def)
  obtain q wx where x: "applyBlock_tx ?M blk saveBlk wu = (q, wx)"
    by (cases "applyBlock_tx ?M blk saveBlk wu")
  from t rt x have q: "q = Inr uu" and wt: "wt = wx"
    by (cases q; simp add: db_tx_def)+
  obtain ra wa where a: "applyUnconfirmedStep ?M blk (wu\<lparr>isActive := True\<rparr>) = (ra, wa)"
    by (cases "applyUnconfirmedStep ?M blk (wu\<lparr>isActive := True\<rparr>)")
  from x q a obtain ua where ra: "ra = Inr ua"
    by (cases ra) (simp_all add: applyBlock_tx_def)
  obtain rc wc where c: "applyConfirmedStep ?M blk wa = (rc, wc)"
    by (cases "applyConfirmedStep ?M blk wa")
  from x q a ra c obtain uc where rc: "rc = Inr uc"
    by (cases rc) (simp_all add: applyBlock_tx_def)
  from x q a ra c rc have s: "saveBlockStep ?M blk saveBlk wc = (Inr uu, wx)"
    by (simp add: applyBlock_tx_def)
  have hu: "heap wu = heap w" "lim wu = lim w" using cu by (simp_all add: core_def)
  from spec_applyUnconfirmedLoop [where g = g and ts = "transactions (heap w blk)"
         and v = "wu\<lparr>isActive := True\<rparr>" and u = ua and v' = wa] a ra hu
  have ea: "core wa = core (wu\<lparr>isActive := True\<rparr>)"
    "db wa = (db wu)\<lparr>acc_u_balance := fold debit (transactions (heap w blk)) (acc_u_balance (db wu))\<rparr>"
    "unconfirmed (mem wa) = unconfirmed (mem wu)"
    by (simp_all add: applyUnconfirmedStep_def)
  have hwa: "heap wa = heap w" "lim wa = lim w" using ea(1) hu by (simp_all add: core_def)
  from spec_applyConfirmedLoop [where g = g and blk = blk and ts = "transactions (heap w blk)"
         and v = wa and u = uc and v' = wc] c rc hwa
  have ec: "core wc = core wa"
    "db wc = (db wa)\<lparr>acc_balance := fold debit (transactions (heap w blk)) (acc_balance (db wa))\<rparr>"
    "unconfirmed (mem wc) = unconfirmed (mem wa)"
    by (simp_all add: applyConfirmedStep_def)
  have hwc: "heap wc = heap w" "lim wc = lim w" using ec(1) hwa by (simp_all add: core_def)
  note es = spec_saveBlockStep_ok [OF s]
  let ?f = "\<lambda>t. call_void (transactions_removeUnconfirmedTransaction ?M (t_id t))"
  have w1: "w1 = (fold ?f (transactions (heap wx blk)) wx)\<lparr>isActive := False\<rparr>"
    using assms u eu t rt wt by (simp add: applyBlock_def Let_def)
  note fr = spec_fold_remove [where g = g and ts = "transactions (heap wx blk)" and v = wx]
  have tabs: "blocks_table (db wc) = blocks_table (db w)" "trs_table (db wc) = trs_table (db w)"
    using ec(2) ea(2) du by simp_all
  have bal: "acc_balance (db wc) = fold debit (transactions (heap w blk)) (acc_balance (db w))"
    "acc_u_balance (db wc) = fold debit (transactions (heap w blk))
        (fold credit (unconfirmed (mem w)) (acc_u_balance (db w)))"
    using ec(2) ea(2) du by simp_all
  have pool: "unconfirmed (mem wx) = unconfirmed (mem w)"
    using es ec(3) ea(3) mu by simp
  have hx: "heap wx = (if saveBlk then heap (assignBlockId blk w) else heap w)"
    using es hwc by (simp add: assignBlockId_def)
  have load: "spec_loadBlocksPart (Some i) (db w1, mem w1) = spec_loadBlocksPart (Some i) (db w, mem w)"
    if "i \<in> set (map b_id (blocks_table (db w)))" for i
  proof -
    have "i \<in> set (map b_id (blocks_table (db wc)))" using that tabs by simp
    with es have "spec_loadBlocksPart (Some i) (db wx, mem w1) = spec_loadBlocksPart (Some i) (db wc, mem w1)"
      by blast
    also have "\<dots> = spec_loadBlocksPart (Some i) (db w, mem w)"
      using tabs by (rule spec_loadBlocksPart_tables)
    finally show ?thesis using w1 fr by simp
  qed
  have "lim w1 = lim w \<and> lastBlock w1 = blk \<and> heap w1 = heap wx"
    using w1 fr es hwc by (simp add: core_def)
  moreover have "acc_balance (db w1) = acc_balance (db wc) \<and> acc_u_balance (db w1) = acc_u_balance (db wc)"
    using w1 fr es by simp
  moreover have "unconfirmed (mem w1) =
      filter (\<lambda>u. t_id u \<notin> set (map t_id (transactions (heap wx blk)))) (unconfirmed (mem w))"
    using w1 fr pool by simp
  ultimately show ?thesis using hx bal load by simp
qed


text \<open>deleteLastBlock as a whole, when it succeeds.\<close>

lemma spec_backwardTickStep:
  fixes v :: "(store, memory) world"
  shows "fst (backwardTickStep (spec_modules g) old p v) = Inr () \<and>
         core (snd (backwardTickStep (spec_modules g) old p v)) = core v \<and>
         mem (snd (backwardTickStep (spec_modules g) old p v)) = mem v \<and>
         acc_balance (db (snd (backwardTickStep (spec_modules g) old p v))) = acc_balance (db v) \<and>
         acc_u_balance (db (snd (backwardTickStep (spec_modules g) old p v))) = acc_u_balance (db v)"
  by (simp add: backwardTickStep_def call_def truthy_def spec_modules_def spec_backwardTick_def core_def)

lemma spec_deleteBlockStep:
  fixes v :: "(store, memory) world"
  shows "fst (deleteBlockStep (spec_modules g) old v) = Inr () \<and>
         core (snd (deleteBlockStep (spec_modules g) old v)) = core v \<and>
         mem (snd (deleteBlockStep (spec_modules g) old v)) = mem v \<and>
         acc_balance (db (snd (deleteBlockStep (spec_modules g) old v))) = acc_balance (db v) \<and>
         acc_u_balance (db (snd (deleteBlockStep (spec_modules g) old v))) = acc_u_balance (db v)"
  by (simp add: deleteBlockStep_def deleteBlock_def call_def truthy_def spec_modules_def
        spec_deleteBlock_def core_def)

lemma spec_popLastBlock_ok:
  fixes v :: "(store, memory) world"
  assumes "popLastBlock (spec_modules g) old v = (Callback p, v')" and "old \<noteq> lim v"
  shows "acc_balance (db v') = fold credit (rev (transactions (heap v old))) (acc_balance (db v)) \<and>
         acc_u_balance (db v') = fold credit (rev (transactions (heap v old))) (acc_u_balance (db v)) \<and>
         unconfirmed (mem v') = unconfirmed (mem v)"
proof -
  let ?M = "spec_modules g"
  obtain q vt where t: "popLastBlock_tx ?M old v = (q, vt)" by (cases "popLastBlock_tx ?M old v")
  from assms(1) t have q: "q = Inr p" and vt: "v' = vt"
    by (cases q; simp add: popLastBlock_def db_tx_def)+
  obtain ql w1 where l: "loadSecondLastBlockStep ?M (previousBlock (heap v old)) v = (ql, w1)"
    by (cases "loadSecondLastBlockStep ?M (previousBlock (heap v old)) v")
  from t q l obtain p1 where ql: "ql = Inr p1"
    by (cases ql) (simp_all add: popLastBlock_tx_def)
  from l ql have w1: "db w1 = db v" "mem w1 = mem v" "heap w1 old = heap v old"
    using assms(2)
    by (auto simp: loadSecondLastBlockStep_def split: prod.splits if_splits)
  let ?w2 = "reverse_transactions old w1"
  have w2: "db ?w2 = db v" "mem ?w2 = mem v"
    "transactions (heap ?w2 old) = rev (transactions (heap v old))"
    using w1 by (simp_all add: reverse_transactions_def)
  let ?loop = "mapSeries
                     (\<lambda>t v. case undoStep ?M old t v of
                               (Inl r, v1) \<Rightarrow> (Inl r, v1)
                             | (Inr _, v1) \<Rightarrow> undoUnconfirmStep ?M t v1)
                     (transactions (heap ?w2 old)) ?w2"
  obtain q3 w3 where m: "?loop = (q3, w3)" by (cases ?loop)
  note e3 = spec_undoLoop [OF m]
  obtain q4 w4 where b: "backwardTickStep ?M old p1 w3 = (q4, w4)"
    by (cases "backwardTickStep ?M old p1 w3")
  note e4 = spec_backwardTickStep [where g = g and old = old and p = p1 and v = w3]
  obtain q5 w5 where d: "deleteBlockStep ?M old w4 = (q5, w5)"
    by (cases "deleteBlockStep ?M old w4")
  note e5 = spec_deleteBlockStep [where g = g and old = old and v = w4]
  have "vt = w5"
    using t l ql m e3 b e4 d e5 by (simp add: popLastBlock_tx_def Let_def)
  then show ?thesis
    using vt e3 e4 e5 b d w2 by simp
qed

lemma spec_deleteLastBlock_ok:
  fixes v :: "(store, memory) world"
  assumes "deleteLastBlock (spec_modules g) v = (Callback (None, Some p), v')"
      and "lastBlock v < lim v"
  shows "lastBlock v' = p \<and>
         heap v' p = hd (snd (spec_loadBlocksPart (previousBlock (heap v (lastBlock v))) (db v, mem v))) \<and>
         acc_balance (db v') = fold credit (rev (transactions (heap v (lastBlock v)))) (acc_balance (db v)) \<and>
         acc_u_balance (db v') = fold credit (rev (transactions (heap v (lastBlock v)))) (acc_u_balance (db v)) \<and>
         unconfirmed (mem v') = unconfirmed (mem v) @ transactions (heap v (lastBlock v))"
proof -
  let ?M = "spec_modules g"
  let ?old = "lastBlock v"
  let ?v0 = "write_log Warn [LText ''Deleting last block'', LBlock (heap v ?old)] v"
  have v0: "heap ?v0 = heap v" "lim ?v0 = lim v" "db ?v0 = db v" "mem ?v0 = mem v" "lastBlock ?v0 = ?old"
    by (simp_all add: write_log_def)
  from assms(1) have h: "height (heap v ?old) \<noteq> 1"
    by (auto simp: deleteLastBlock_def Let_def v0)
  obtain oc vp where pp: "popLastBlock ?M ?old ?v0 = (oc, vp)" by (cases "popLastBlock ?M ?old ?v0")
  from assms(1) h pp have o: "oc = Callback p"
    by (cases oc) (auto simp: deleteLastBlock_def Let_def v0 split: prod.splits)
  have ne: "?old \<noteq> lim ?v0" using assms(2) v0 by simp
  note obj = popLastBlock_objects [where M = ?M and old = ?old and w = ?v0 and p = p and w' = vp]
  from obj pp o v0 ne
  have p: "p = lim v" and hp: "heap vp p = hd (snd (spec_loadBlocksPart (previousBlock (heap v ?old)) (db v, mem v)))"
    and ho: "heap vp ?old = (heap v ?old)\<lparr>transactions := rev (transactions (heap v ?old))\<rparr>"
    by (simp_all add: Let_def spec_modules_def)
  from spec_popLastBlock_ok [where g = g and old = ?old and v = ?v0 and p = p and v' = vp] pp o ne v0
  have bal: "acc_balance (db vp) = fold credit (rev (transactions (heap v ?old))) (acc_balance (db v))"
    "acc_u_balance (db vp) = fold credit (rev (transactions (heap v ?old))) (acc_u_balance (db v))"
    "unconfirmed (mem vp) = unconfirmed (mem v)"
    by simp_all
  let ?v2 = "reverse_transactions ?old vp"
  have tr: "transactions (heap ?v2 ?old) = transactions (heap v ?old)"
    using ho by (simp add: reverse_transactions_def)
  have hp2: "heap ?v2 p = heap vp p"
    using p assms(2) by (simp add: reverse_transactions_def)
  have "v' = (snd (call (transactions_receiveTransactions ?M (transactions (heap ?v2 ?old)) False) ?v2))
               \<lparr>lastBlock := p\<rparr>"
    using assms(1) h pp o
    by (simp add: deleteLastBlock_def Let_def v0 call_def spec_modules_def spec_receiveTransactions_def)
  then show ?thesis
    using tr hp2 hp bal
    by (simp add: call_def spec_modules_def spec_receiveTransactions_def reverse_transactions_def)
qed

lemma spec_loaded_id:
  assumes "snd (spec_loadBlocksPart (Some i) s) = [b]"
  shows "i \<in> set (map b_id (blocks_table (fst s)))"
proof -
  from assms have "filter (\<lambda>r. Some (b_id r) = Some i) (blocks_table (fst s)) \<noteq> []"
    by (auto simp: spec_loadBlocksPart_def)
  then obtain r where "r \<in> set (blocks_table (fst s))" "b_id r = i"
    by (auto simp: filter_empty_conv)
  then show ?thesis by auto
qed

section \<open>The claims\<close>

text \<open>
  C1, as amended. applyBlock sets the Last-Block Register to the new block inside the
  persistence transaction, as the first statement of the save-block step, and sends
  \<open>newBlock\<close> inside the transaction too, once the block is written (or need not be
  written) and before the round tick; a rollback undoes neither. When the
  undo-unconfirmed-pool step, the apply-unconfirmed step or the apply-confirmed step
  fails, the register still holds the pre-apply tip and the bus is as before. In every
  other case the register holds the new block when applyBlock returns, whether the
  transaction committed or not, and \<open>newBlock\<close> for the block is among the messages of
  the call exactly when the block write did not fail.
\<close>

theorem applyBlock_register_and_newBlock:
  fixes M :: "('a, 'd, 'm) modules" and w :: "('d, 'm) world" and blk :: ref and saveBlk :: bool
  defines "u \<equiv> undoUnconfirmedListStep M w"
  defines "a \<equiv> applyUnconfirmedStep M blk ((snd u)\<lparr>isActive := True\<rparr>)"
  defines "c \<equiv> applyConfirmedStep M blk (snd a)"
  defines "s \<equiv> saveBlock M blk True ((snd c)\<lparr>lastBlock := blk\<rparr>)"
  defines "w' \<equiv> snd (applyBlock M blk saveBlk w)"
  shows "(isError (fst u) \<or> isl (fst a) \<or> isl (fst c) \<longrightarrow>
            lastBlock w' = lastBlock w \<and> bus w' = bus w) \<and>
         (\<not> isError (fst u) \<and> \<not> isl (fst a) \<and> \<not> isl (fst c) \<longrightarrow>
            lastBlock w' = blk \<and>
            (newBlock blk \<in> set (drop (length (bus w)) (bus w'))) = (saveBlk \<longrightarrow> \<not> isError (fst s)))"
proof -
  obtain err w1 where u: "undoUnconfirmedListStep M w = (err, w1)"
    by (cases "undoUnconfirmedListStep M w")
  have cu: "core w1 = core w" using core_undoUnconfirmedListStep [of M w] u by simp
  obtain ra wa where a: "applyUnconfirmedStep M blk (w1\<lparr>isActive := True\<rparr>) = (ra, wa)"
    by (cases "applyUnconfirmedStep M blk (w1\<lparr>isActive := True\<rparr>)")
  have ca: "core wa = core (w1\<lparr>isActive := True\<rparr>)"
    using core_applyUnconfirmedStep [of M blk "w1\<lparr>isActive := True\<rparr>"] a by simp
  obtain rc wc where c: "applyConfirmedStep M blk wa = (rc, wc)"
    by (cases "applyConfirmedStep M blk wa")
  have cc: "core wc = core wa" using core_applyConfirmedStep [of M blk wa] c by simp
  obtain rt wt where t: "db_tx (applyBlock_tx M blk saveBlk) w1 = (rt, wt)"
    by (cases "db_tx (applyBlock_tx M blk saveBlk) w1")
  note rem = core_fold_remove [of M]
  have fin: "lastBlock w' = lastBlock wt \<and> bus w' = bus wt" if "\<not> isError err"
  proof (cases rt)
    case (Inl r)
    then show ?thesis using that u t
      by (simp add: w'_def applyBlock_def Let_def process_emit_def write_log_def)
  next
    case (Inr v)
    then show ?thesis using that u t rem [of "transactions (heap wt blk)" wt]
      by (simp add: w'_def applyBlock_def Let_def core_def)
  qed
  have wt: "lastBlock wt = lastBlock (snd (applyBlock_tx M blk saveBlk w1)) \<and>
            bus wt = bus (snd (applyBlock_tx M blk saveBlk w1))"
    using db_tx_core [of "applyBlock_tx M blk saveBlk" w1] t by (simp add: core_def)
  show ?thesis
  proof (cases "isError err")
    case True
    then show ?thesis using u cu by (simp add: u_def w'_def applyBlock_def core_def)
  next
    case e: False
    show ?thesis
    proof (cases ra)
      case (Inl r)
      then have "applyBlock_tx M blk saveBlk w1 = (Inl r, wa)"
        using a by (simp add: applyBlock_tx_def)
      then show ?thesis using e Inl fin wt u a ca cu
        by (simp add: u_def a_def core_def)
    next
      case ra: (Inr v)
      show ?thesis
      proof (cases rc)
        case (Inl r)
        then have "applyBlock_tx M blk saveBlk w1 = (Inl r, wc)"
          using a c ra by (simp add: applyBlock_tx_def)
        then show ?thesis using e ra Inl fin wt u a c cc ca cu
          by (simp add: u_def a_def c_def core_def)
      next
        case rc: (Inr v')
        have "applyBlock_tx M blk saveBlk w1 = saveBlockStep M blk saveBlk wc"
          using a c ra rc by (simp add: applyBlock_tx_def)
        moreover from saveBlockStep_frame [of M blk saveBlk wc]
        obtain X where "slots (snd (saveBlockStep M blk saveBlk wc)) = slots (wc\<lparr>lastBlock := blk\<rparr>)"
          and "bus (snd (saveBlockStep M blk saveBlk wc)) = bus wc @ X"
          and "(newBlock blk \<in> set X) = (saveBlk \<longrightarrow> \<not> isError (fst (saveBlock M blk True (wc\<lparr>lastBlock := blk\<rparr>))))"
          by auto
        ultimately show ?thesis using e ra rc fin wt u a c cc ca cu
          by (simp add: u_def a_def c_def s_def core_def slots_def)
      qed
    qed
  qed
qed

text \<open>
  Witness of C1: block \<open>B\<close> is applied with success, block \<open>F\<close> fails in the
  apply-unconfirmed step.
\<close>

theorem applyBlock_register_and_newBlock_witness:
  "(\<not> isError (fst (undoUnconfirmedListStep demo_modules demo_world)) \<and>
    \<not> isl (fst (applyUnconfirmedStep demo_modules 1
                  ((snd (undoUnconfirmedListStep demo_modules demo_world))\<lparr>isActive := True\<rparr>))) \<and>
    \<not> isl (fst (applyConfirmedStep demo_modules 1
                  (snd (applyUnconfirmedStep demo_modules 1
                     ((snd (undoUnconfirmedListStep demo_modules demo_world))\<lparr>isActive := True\<rparr>))))) \<and>
    lastBlock (snd (applyBlock demo_modules 1 True demo_world)) = 1 \<and>
    newBlock 1 \<in> set (drop (length (bus demo_world)) (bus (snd (applyBlock demo_modules 1 True demo_world))))) \<and>
   (isl (fst (applyUnconfirmedStep demo_modules 6
                  ((snd (undoUnconfirmedListStep demo_modules demo_world))\<lparr>isActive := True\<rparr>))) \<and>
    lastBlock (snd (applyBlock demo_modules 6 True demo_world)) = lastBlock demo_world \<and>
    bus (snd (applyBlock demo_modules 6 True demo_world)) = bus demo_world)"
  using applyBlock_register_and_newBlock [where M = demo_modules and w = demo_world and blk = 1 and saveBlk = True]
        applyBlock_register_and_newBlock [where M = demo_modules and w = demo_world and blk = 6 and saveBlk = True]
  by (simp add: chain_defs spec_defs demo_defs Let_def)

text \<open>
  Counterexample to C1 as stated: the round tick fails after block \<open>B\<close> was written.
  The transaction rolls back (the \<open>blocks\<close> table holds \<open>T\<close> alone) and the caller
  gets the error, yet the register, which held \<open>T\<close> (reference 0), holds \<open>B\<close>
  (reference 1), and \<open>newBlock\<close> for \<open>B\<close> is on the bus.
\<close>

theorem applyBlock_register_before_commit_counterexample:
  "fst (applyBlock (tick_fails (ErrString ''tick failed'')) 1 True demo_world)
     = Callback (Some (ErrString ''tick failed'')) \<and>
   blocks_table (db (snd (applyBlock (tick_fails (ErrString ''tick failed'')) 1 True demo_world))) = [blockT] \<and>
   lastBlock demo_world = 0 \<and>
   lastBlock (snd (applyBlock (tick_fails (ErrString ''tick failed'')) 1 True demo_world)) = 1 \<and>
   newBlock 1 \<in> set (bus (snd (applyBlock (tick_fails (ErrString ''tick failed'')) 1 True demo_world)))"
  by (simp add: chain_defs spec_defs demo_defs Let_def)

text \<open>
  C2, as amended, against the collaborators modelled from the spec. Let block \<open>B\<close>
  name the persisted tip \<open>T\<close> as its parent. When applyBlock(B) and then
  deleteLastBlock() succeed, the Last-Block Register holds \<open>T\<close> again, every confirmed
  balance has its pre-apply value, every unconfirmed balance has the value that
  applyBlock's undo-unconfirmed-pool step gave it (the pre-apply value with the effects
  of the pool's pending transactions rolled back; the pre-apply value itself when the
  pool held none), and the transactions of \<open>B\<close> are in the pool, behind those it held.
\<close>

theorem applyBlock_deleteLastBlock_round_trip:
  fixes w :: "(store, memory) world"
  assumes "blk < lim w"
      and "previousBlock (heap w blk) = Some (b_id (heap w (lastBlock w)))"
      and "snd (spec_loadBlocksPart (Some (b_id (heap w (lastBlock w)))) (db w, mem w)) = [heap w (lastBlock w)]"
      and "applyBlock (spec_modules g) blk saveBlk w = (Callback None, wa)"
      and "deleteLastBlock (spec_modules g) wa = (Callback (None, Some p), wd)"
  shows "heap wd (lastBlock wd) = heap w (lastBlock w) \<and>
         acc_balance (db wd) = acc_balance (db w) \<and>
         acc_u_balance (db wd) = fold credit (unconfirmed (mem w)) (acc_u_balance (db w)) \<and>
         unconfirmed (mem wd) = unconfirmed (mem wa) @ transactions (heap wa blk) \<and>
         map t_id (transactions (heap wa blk)) = map t_id (transactions (heap w blk))"
proof -
  let ?tid = "b_id (heap w (lastBlock w))"
  note a = spec_applyBlock_ok [OF assms(4)]
  have la: "lastBlock wa < lim wa" using a assms(1) by simp
  note d = spec_deleteLastBlock_ok [OF assms(5) la]
  have blkA: "lastBlock wa = blk" using a by simp
  have txs: "transactions (heap wa blk) =
      (if saveBlk then map (\<lambda>t. t\<lparr>blockId := Some (b_id (heap w blk))\<rparr>) (transactions (heap w blk))
       else transactions (heap w blk))"
    and prev: "previousBlock (heap wa blk) = previousBlock (heap w blk)"
    using a by (simp_all add: assignBlockId_def)
  have "?tid \<in> set (map b_id (blocks_table (db w)))"
    using spec_loaded_id [OF assms(3)] by simp
  with a have "spec_loadBlocksPart (Some ?tid) (db wa, mem wa) = spec_loadBlocksPart (Some ?tid) (db w, mem w)"
    by blast
  then have 1: "heap wd (lastBlock wd) = heap w (lastBlock w)"
    using d blkA prev assms(2,3) by simp
  have cr: "fold credit (rev (transactions (heap wa blk))) f = fold credit (rev (transactions (heap w blk))) f" for f
    using txs by (simp add: rev_map fold_credit_blockId)
  have 2: "acc_balance (db wd) = acc_balance (db w)"
    using d a blkA cr by (simp add: fold_credit_debit)
  have 3: "acc_u_balance (db wd) = fold credit (unconfirmed (mem w)) (acc_u_balance (db w))"
    using d a blkA cr by (simp add: fold_credit_debit)
  have 4: "unconfirmed (mem wd) = unconfirmed (mem wa) @ transactions (heap wa blk)"
    using d blkA by simp
  have 5: "map t_id (transactions (heap wa blk)) = map t_id (transactions (heap w blk))"
    using txs by (simp add: comp_def)
  from 1 2 3 4 5 show ?thesis by simp
qed

text \<open>Witness of C2: block \<open>B\<close> is applied on the tip \<open>T\<close> and deleted again.\<close>

theorem applyBlock_deleteLastBlock_round_trip_witness:
  "1 < lim demo_world \<and>
   previousBlock (heap demo_world 1) = Some (b_id (heap demo_world (lastBlock demo_world))) \<and>
   snd (spec_loadBlocksPart (Some (b_id (heap demo_world (lastBlock demo_world))))
          (db demo_world, mem demo_world)) = [heap demo_world (lastBlock demo_world)] \<and>
   fst (applyBlock demo_modules 1 True demo_world) = Callback None \<and>
   fst (deleteLastBlock demo_modules demo_applied) = Callback (None, Some 7) \<and>
   heap (snd (deleteLastBlock demo_modules demo_applied))
        (lastBlock (snd (deleteLastBlock demo_modules demo_applied))) = blockT \<and>
   acc_balance (db (snd (deleteLastBlock demo_modules demo_applied))) ''alice'' = 10 \<and>
   acc_balance (db (snd (deleteLastBlock demo_modules demo_applied))) ''bob'' = 10 \<and>
   acc_u_balance (db (snd (deleteLastBlock demo_modules demo_applied))) ''bob'' = 10 \<and>
   map t_id (unconfirmed (mem (snd (deleteLastBlock demo_modules demo_applied)))) = [''p'', ''t1'', ''t2'']"
  using applyBlock_deleteLastBlock_round_trip
          [where g = 5 and blk = 1 and saveBlk = True and w = demo_world and wa = demo_applied
             and p = 7 and wd = "snd (deleteLastBlock demo_modules demo_applied)"]
  by (simp add: demo_applied_def chain_defs spec_defs demo_defs Let_def)

text \<open>
  Counterexample to C2 as stated: the pool holds a pending transaction of \<open>alice\<close>
  over 2, her unconfirmed balance is 8. The empty block \<open>E\<close>, a valid successor of the
  tip \<open>T\<close>, is applied and deleted again, both with success; her unconfirmed balance is
  then 10, not its pre-apply value.
\<close>

theorem round_trip_unconfirmed_balance_counterexample:
  "previousBlock (heap demo_world 2) = Some (b_id (heap demo_world (lastBlock demo_world))) \<and>
   height (heap demo_world 2) = height (heap demo_world (lastBlock demo_world)) + 1 \<and>
   fst (applyBlock demo_modules 2 True demo_world) = Callback None \<and>
   fst (deleteLastBlock demo_modules (snd (applyBlock demo_modules 2 True demo_world)))
     = Callback (None, Some 7) \<and>
   acc_u_balance (db demo_world) ''alice'' = 8 \<and>
   acc_u_balance (db (snd (deleteLastBlock demo_modules (snd (applyBlock demo_modules 2 True demo_world)))))
     ''alice'' = 10"
  by (simp add: chain_defs spec_defs demo_defs Let_def)

text \<open>
  C3, as amended. applyBlock does not compare the block with the tip: its result does
  not depend on what the Last-Block Register holds, and whenever it reports success
  the register holds the block it was given, whatever the block's \<open>previousBlock\<close>
  and \<open>height\<close>. That the block is the tip's successor is a precondition for the caller
  to establish.
\<close>

theorem applyBlock_does_not_check_successor:
  "fst (applyBlock M blk saveBlk (w\<lparr>lastBlock := r\<rparr>)) = fst (applyBlock M blk saveBlk w) \<and>
   (fst (applyBlock M blk saveBlk w) = Callback None \<longrightarrow>
      lastBlock (snd (applyBlock M blk saveBlk w)) = blk)"
  using applyBlock_register_blind [where M = M and blk = blk and saveBlk = saveBlk and w = w and r = r]
        applyBlock_success_register [where M = M and blk = blk and saveBlk = saveBlk and w = w]
  by simp

text \<open>Witness of C3: block \<open>X\<close>, which is no successor of the tip \<open>T\<close>, is applied with success.\<close>

theorem applyBlock_does_not_check_successor_witness:
  "fst (applyBlock demo_modules 3 True demo_world) = Callback None \<and>
   lastBlock (snd (applyBlock demo_modules 3 True demo_world)) = 3"
  using applyBlock_does_not_check_successor [where M = demo_modules and blk = 3 and saveBlk = True and w = demo_world and r = 0]
  by (simp add: chain_defs spec_defs demo_defs Let_def)

text \<open>
  Counterexample to C3 as stated: the tip is \<open>T\<close> (height 1); block \<open>X\<close> has height 7
  and names the parent \<open>Y\<close>. applyBlock reports success, the register holds \<open>X\<close> and
  \<open>X\<close> is written to the \<open>blocks\<close> table.
\<close>

theorem applyBlock_accepts_wrong_parent_counterexample:
  "previousBlock (heap demo_world 3) \<noteq> Some (b_id (heap demo_world (lastBlock demo_world))) \<and>
   height (heap demo_world 3) \<noteq> height (heap demo_world (lastBlock demo_world)) + 1 \<and>
   fst (applyBlock demo_modules 3 True demo_world) = Callback None \<and>
   lastBlock (snd (applyBlock demo_modules 3 True demo_world)) = 3 \<and>
   map b_id (blocks_table (db (snd (applyBlock demo_modules 3 True demo_world)))) = [''T'', ''X'']"
  by (simp add: chain_defs spec_defs demo_defs Let_def)

text \<open>
  C4. The claim asks for a stable partition, votes last. The compare function of
  applyGenesisBlock looks at its first argument only and never answers with a negative
  number: it puts each of two votes after the other, and a vote after itself. What
  \<open>sort\<close> makes of it is left to the engine. For the genesis sequence
  TRANSFER_a, VOTE_b, TRANSFER_c, VOTE_d the transactions are applied in the order
  a, c, d, b under V8's insertion sort (the votes last, but in reversed order) and in
  the unchanged order a, b, c, d under V8's TimSort; neither is the order a, c, b, d
  of the claim. (In general the insertion sort yields the non-votes in their order
  followed by the votes in reversed order, lemma \<open>InsertionSort_genesis\<close>, and TimSort
  leaves every sequence as it is, lemma \<open>TimSort_short_genesis\<close>.)
\<close>

theorem applyGenesisBlock_order:
  "transactions (heap demo_world 5) = [TRANSFER_a, VOTE_b, TRANSFER_c, VOTE_d] \<and>
   fst (applyGenesisBlock demo_modules 5 demo_world) = Callback None \<and>
   map snd (filter (\<lambda>e. fst e = ''apply'') (journal (mem (snd (applyGenesisBlock demo_modules 5 demo_world)))))
     = map t_id [TRANSFER_a, TRANSFER_c, VOTE_d, VOTE_b] \<and>
   fst (applyGenesisBlock timsort_modules 5 demo_world) = Callback None \<and>
   map snd (filter (\<lambda>e. fst e = ''apply'') (journal (mem (snd (applyGenesisBlock timsort_modules 5 demo_world)))))
     = map t_id [TRANSFER_a, VOTE_b, TRANSFER_c, VOTE_d] \<and>
   genesis_comparefn VOTE_b VOTE_d = 1 \<and> genesis_comparefn VOTE_d VOTE_b = 1 \<and>
   genesis_comparefn VOTE_b VOTE_b = 1"
  by (simp add: chain_defs spec_defs demo_defs Let_def)

text \<open>
  C5, as amended. When the reason that rejects applyBlock's persistence transaction
  has the name \<open>Snapshot finished\<close>, applyBlock writes it to the log at level info and
  emits \<open>SIGTERM\<close>; it then hands the reason to its callback as the error, as it does
  with every other rejection reason (for which the handler logs nothing and emits no
  signal). In both cases Is-Active is cleared and the stored state is the one the
  undo-unconfirmed-pool step left.
\<close>

theorem applyBlock_rejection_reported:
  assumes "\<not> isError (fst (undoUnconfirmedListStep M w))"
      and "fst (applyBlock_tx M blk saveBlk (snd (undoUnconfirmedListStep M w))) = Inl r"
  shows "fst (applyBlock M blk saveBlk w) = Callback (Some r) \<and>
         signals (snd (applyBlock M blk saveBlk w)) =
           signals w @ (if reason_name r = Some ''Snapshot finished'' then [''SIGTERM''] else []) \<and>
         logger (snd (applyBlock M blk saveBlk w)) =
           logger (snd (applyBlock_tx M blk saveBlk (snd (undoUnconfirmedListStep M w)))) @
           (if reason_name r = Some ''Snapshot finished'' then [(Info, [LErr (Some r)])] else []) \<and>
         \<not> isActive (snd (applyBlock M blk saveBlk w)) \<and>
         db (snd (applyBlock M blk saveBlk w)) = db (snd (undoUnconfirmedListStep M w))"
proof -
  obtain e w1 where u: "undoUnconfirmedListStep M w = (e, w1)"
    by (cases "undoUnconfirmedListStep M w")
  have cu: "core w1 = core w" using core_undoUnconfirmedListStep [of M w] u by simp
  obtain rt wt where t: "db_tx (applyBlock_tx M blk saveBlk) w1 = (rt, wt)"
    by (cases "db_tx (applyBlock_tx M blk saveBlk) w1")
  have rt: "rt = Inl r"
    using assms(2) u t db_tx_fst [of "applyBlock_tx M blk saveBlk" w1] by simp
  have "slots wt = slots (snd (applyBlock_tx M blk saveBlk w1))"
    using db_tx_slots [of "applyBlock_tx M blk saveBlk" w1] t by simp
  then have sg: "signals wt = signals w"
    using applyBlock_tx_signals [of M blk saveBlk w1] cu by (simp add: slots_def core_def)
  have lg: "logger wt = logger (snd (applyBlock_tx M blk saveBlk w1))"
    using db_tx_logger [of "applyBlock_tx M blk saveBlk" w1] t by simp
  have dbt: "db wt = db w1"
    using db_tx_db [of "applyBlock_tx M blk saveBlk" w1] t assms(2) u by simp
  show ?thesis
    using assms(1) u t rt sg lg dbt
    by (simp add: applyBlock_def Let_def process_emit_def write_log_def)
qed

text \<open>
  Witness of C5: the round tick of block \<open>B\<close> ends with the sentinel, and with another
  reason.
\<close>

theorem applyBlock_rejection_reported_witness:
  "\<not> isError (fst (undoUnconfirmedListStep (tick_fails (ErrObject ''Snapshot finished'' [])) demo_world)) \<and>
   fst (applyBlock_tx (tick_fails (ErrObject ''Snapshot finished'' [])) 1 True
          (snd (undoUnconfirmedListStep (tick_fails (ErrObject ''Snapshot finished'' [])) demo_world)))
     = Inl (ErrObject ''Snapshot finished'' []) \<and>
   fst (applyBlock (tick_fails (ErrObject ''Snapshot finished'' [])) 1 True demo_world)
     = Callback (Some (ErrObject ''Snapshot finished'' [])) \<and>
   signals (snd (applyBlock (tick_fails (ErrObject ''Snapshot finished'' [])) 1 True demo_world))
     = [''SIGTERM''] \<and>
   logger (snd (applyBlock (tick_fails (ErrObject ''Snapshot finished'' [])) 1 True demo_world))
     = [(Debug, [LText ''Block applied correctly with '', LNum 2, LText '' transactions'']),
        (Info, [LErr (Some (ErrObject ''Snapshot finished'' []))])] \<and>
   \<not> isActive (snd (applyBlock (tick_fails (ErrObject ''Snapshot finished'' [])) 1 True demo_world)) \<and>
   fst (applyBlock_tx (tick_fails (ErrString ''tick failed'')) 1 True
          (snd (undoUnconfirmedListStep (tick_fails (ErrString ''tick failed'')) demo_world)))
     = Inl (ErrString ''tick failed'') \<and>
   fst (applyBlock (tick_fails (ErrString ''tick failed'')) 1 True demo_world)
     = Callback (Some (ErrString ''tick failed'')) \<and>
   signals (snd (applyBlock (tick_fails (ErrString ''tick failed'')) 1 True demo_world)) = [] \<and>
   logger (snd (applyBlock (tick_fails (ErrString ''tick failed'')) 1 True demo_world))
     = [(Debug, [LText ''Block applied correctly with '', LNum 2, LText '' transactions''])]"
  using applyBlock_rejection_reported
          [where M = "tick_fails (ErrObject ''Snapshot finished'' [])" and w = demo_world
             and blk = 1 and saveBlk = True and r = "ErrObject ''Snapshot finished'' []"]
        applyBlock_rejection_reported
          [where M = "tick_fails (ErrString ''tick failed'')" and w = demo_world
             and blk = 1 and saveBlk = True and r = "ErrString ''tick failed''"]
  by (simp add: chain_defs spec_defs demo_defs Let_def)

text \<open>
  Counterexample to C5 as stated: the sentinel reaches the caller as the callback's
  error argument, a truthy value like any failure.
\<close>

theorem applyBlock_reports_sentinel_counterexample:
  "fst (applyBlock (tick_fails (ErrObject ''Snapshot finished'' [])) 1 True demo_world)
     = Callback (Some (ErrObject ''Snapshot finished'' [])) \<and>
   isError (Some (ErrObject ''Snapshot finished'' []))"
  by (simp add: chain_defs spec_defs demo_defs Let_def)

text \<open>
  C6. After success and after the failure of a step inside the persistence
  transaction, Is-Active is false when applyBlock returns, whatever it was before: the
  body of the transaction sets the flag and both handlers clear it. When the initial
  undo-unconfirmed-pool step fails, applyBlock returns before the flag is set and does
  not write it. So the flag on return is true exactly when it was true at the call and
  the undo-unconfirmed-pool step failed; applyBlock is called with Is-Active false (its
  precondition, which applyBlock itself re-establishes on every path), and then the flag
  is false on return on all three paths.
\<close>

theorem applyBlock_clears_isActive:
  "isActive (snd (applyBlock M blk saveBlk w)) =
     (isActive w \<and> isError (fst (undoUnconfirmedListStep M w))) \<and>
   (\<not> isActive w \<longrightarrow> \<not> isActive (snd (applyBlock M blk saveBlk w)))"
proof -
  obtain err w1 where u: "undoUnconfirmedListStep M w = (err, w1)"
    by (cases "undoUnconfirmedListStep M w")
  have "core w1 = core w" using core_undoUnconfirmedListStep [of M w] u by simp
  then have a1: "isActive w1 = isActive w" by (simp add: core_def)
  obtain r w2 where t: "db_tx (applyBlock_tx M blk saveBlk) w1 = (r, w2)"
    by (cases "db_tx (applyBlock_tx M blk saveBlk) w1")
  have "isActive (snd (applyBlock M blk saveBlk w)) = (isActive w \<and> isError err)"
    using a1 by (cases r) (simp_all add: applyBlock_def u t Let_def process_emit_def write_log_def)
  then show ?thesis using u by simp
qed

text \<open>
  Witness of C6: block \<open>B\<close> applied with success, with a failing round tick, and with
  a failing undo-unconfirmed-pool step, from a state with Is-Active false; and the
  first two from a state in which the flag was set, which applyBlock clears.
\<close>

theorem applyBlock_clears_isActive_witness:
  "\<not> isActive demo_world \<and>
   fst (applyBlock demo_modules 1 True demo_world) = Callback None \<and>
   \<not> isActive (snd (applyBlock demo_modules 1 True demo_world)) \<and>
   fst (applyBlock (tick_fails (ErrString ''tick failed'')) 1 True demo_world)
     = Callback (Some (ErrString ''tick failed'')) \<and>
   \<not> isActive (snd (applyBlock (tick_fails (ErrString ''tick failed'')) 1 True demo_world)) \<and>
   fst (applyBlock undo_list_fails 1 True demo_world)
     = Callback (Some (ErrString ''Failed to undo unconfirmed list'')) \<and>
   \<not> isActive (snd (applyBlock undo_list_fails 1 True demo_world)) \<and>
   isActive (demo_world\<lparr>isActive := True\<rparr>) \<and>
   fst (applyBlock demo_modules 1 True (demo_world\<lparr>isActive := True\<rparr>)) = Callback None \<and>
   \<not> isActive (snd (applyBlock demo_modules 1 True (demo_world\<lparr>isActive := True\<rparr>))) \<and>
   fst (applyBlock (tick_fails (ErrString ''tick failed'')) 1 True (demo_world\<lparr>isActive := True\<rparr>))
     = Callback (Some (ErrString ''tick failed'')) \<and>
   \<not> isActive (snd (applyBlock (tick_fails (ErrString ''tick failed'')) 1 True
                      (demo_world\<lparr>isActive := True\<rparr>)))"
  using applyBlock_clears_isActive [where w = demo_world and M = demo_modules and blk = 1 and saveBlk = True]
        applyBlock_clears_isActive [where w = demo_world and M = "tick_fails (ErrString ''tick failed'')"
           and blk = 1 and saveBlk = True]
        applyBlock_clears_isActive [where w = demo_world and M = undo_list_fails and blk = 1 and saveBlk = True]
        applyBlock_clears_isActive [where w = "demo_world\<lparr>isActive := True\<rparr>" and M = demo_modules
           and blk = 1 and saveBlk = True]
        applyBlock_clears_isActive [where w = "demo_world\<lparr>isActive := True\<rparr>"
           and M = "tick_fails (ErrString ''tick failed'')" and blk = 1 and saveBlk = True]
  by (simp add: chain_defs spec_defs demo_defs Let_def)

text \<open>
  C7. The claim asks for the undone transactions to be handed to the pool in reversed
  order. popLastBlock reverses the tip's \<open>transactions\<close> array in place and undoes the
  transactions in that order; deleteLastBlock then calls \<open>reverse\<close> on the same array
  once more. For every tip and all collaborators: when popLastBlock has committed,
  the array it leaves is the reversed sequence, and the list receiveTransactions is
  called with is the tip's sequence in its original order. The call happens after the
  persistence transaction, and the Last-Block Register is set when it has answered.
\<close>

theorem deleteLastBlock_reinserts_in_block_order:
  fixes M :: "('a, 'd, 'm) modules" and w :: "('d, 'm) world"
  defines "w0 \<equiv> write_log Warn [LText ''Deleting last block'', LBlock (heap w (lastBlock w))] w"
  assumes "lastBlock w < lim w"
      and "height (heap w (lastBlock w)) \<noteq> 1"
      and "popLastBlock M (lastBlock w) w0 = (Callback newLastBlock, wp)"
  shows "transactions (heap wp (lastBlock w)) = rev (transactions (heap w (lastBlock w))) \<and>
         deleteLastBlock M w =
           (case call (transactions_receiveTransactions M (transactions (heap w (lastBlock w))) False)
                   (reverse_transactions (lastBlock w) wp) of
              (err, wr) \<Rightarrow>
                (Callback (None, Some newLastBlock),
                 (if isError err
                  then write_log Error [LText ''Error adding transactions'', LErr err] wr
                  else wr)\<lparr>lastBlock := newLastBlock\<rparr>))"
proof -
  have l: "lastBlock w0 = lastBlock w" and h: "heap w0 = heap w" and li: "lim w0 = lim w"
    by (simp_all add: w0_def write_log_def)
  from popLastBlock_objects [OF assms(4)] assms(2) l h li
  have hp: "heap wp (lastBlock w) =
      (heap w (lastBlock w))\<lparr>transactions := rev (transactions (heap w (lastBlock w)))\<rparr>"
    by (simp add: Let_def)
  then have 1: "transactions (heap wp (lastBlock w)) = rev (transactions (heap w (lastBlock w)))"
    by simp
  have 2: "transactions (heap (reverse_transactions (lastBlock w) wp) (lastBlock w))
             = transactions (heap w (lastBlock w))"
    using hp by (simp add: reverse_transactions_def)
  show ?thesis
    using 1 2 assms(3,4) l h
    by (simp add: deleteLastBlock_def Let_def w0_def [symmetric])
qed

text \<open>
  Witness of C7: block \<open>B\<close>, applied on \<open>T\<close>, is deleted again. Its transactions
  t1, t2 are undone in the order t2, t1 and come into the pool in the order t1, t2.
\<close>

theorem deleteLastBlock_reinserts_in_block_order_witness:
  "lastBlock demo_applied < lim demo_applied \<and>
   height (heap demo_applied (lastBlock demo_applied)) \<noteq> 1 \<and>
   fst (popLastBlock demo_modules (lastBlock demo_applied)
          (write_log Warn [LText ''Deleting last block'', LBlock (heap demo_applied (lastBlock demo_applied))]
             demo_applied)) = Callback 7 \<and>
   map t_id (transactions (heap demo_applied (lastBlock demo_applied))) = [''t1'', ''t2''] \<and>
   drop 4 (journal (mem (snd (deleteLastBlock demo_modules demo_applied))))
     = [(''undo'', ''t2''), (''undoUnconfirmed'', ''t2''), (''undo'', ''t1''), (''undoUnconfirmed'', ''t1'')] \<and>
   map t_id (unconfirmed (mem demo_applied)) = [''p''] \<and>
   map t_id (unconfirmed (mem (snd (deleteLastBlock demo_modules demo_applied)))) = [''p'', ''t1'', ''t2'']"
  using deleteLastBlock_reinserts_in_block_order
          [where M = demo_modules and w = demo_applied and newLastBlock = 7
             and wp = "snd (popLastBlock demo_modules (lastBlock demo_applied)
                 (write_log Warn [LText ''Deleting last block'', LBlock (heap demo_applied (lastBlock demo_applied))]
                    demo_applied))"]
  by (simp add: demo_applied_def chain_defs spec_defs demo_defs Let_def)

text \<open>
  C8. The test of the code is \<open>lastBlock.height === 1\<close>: at height 1 deleteLastBlock
  fails with \<open>Cannot delete genesis block\<close> and has changed nothing but the log, to
  which the warning \<open>Deleting last block\<close> was added before the test (no persistence
  transaction is opened, no transaction undone, the register unchanged); at every other
  height the guard does not fire. The heights of the data model start at 1, the height
  of the genesis block. For a register of such a height this is the claim: a height not
  greater than 1 is refused in this way, and for every height greater than 1 the guard
  does not fire.
\<close>

theorem deleteLastBlock_genesis_guard:
  fixes M :: "('a, 'd, 'm) modules" and w :: "('d, 'm) world"
  defines "h \<equiv> height (heap w (lastBlock w))"
      and "refused \<equiv>
             (Callback (Some (ErrString ''Cannot delete genesis block''), None),
              write_log Warn [LText ''Deleting last block'', LBlock (heap w (lastBlock w))] w)"
  shows "(h = 1 \<longrightarrow> deleteLastBlock M w = refused) \<and>
         (h \<noteq> 1 \<longrightarrow> fst (deleteLastBlock M w) \<noteq> fst refused) \<and>
         (1 \<le> h \<longrightarrow>
            (\<not> 1 < h \<longrightarrow> deleteLastBlock M w = refused) \<and>
            (1 < h \<longrightarrow> fst (deleteLastBlock M w) \<noteq> fst refused))"
proof -
  have 1: "h = 1 \<longrightarrow> deleteLastBlock M w = refused"
    by (simp add: h_def refused_def deleteLastBlock_def Let_def write_log_def)
  have 2: "h \<noteq> 1 \<longrightarrow> fst (deleteLastBlock M w) \<noteq> fst refused"
    by (simp add: h_def refused_def deleteLastBlock_def Let_def write_log_def
          split: prod.splits outcome.splits)
  have "1 \<le> h \<Longrightarrow> \<not> 1 < h \<Longrightarrow> h = 1" by simp
  with 1 2 show ?thesis by auto
qed

text \<open>Witness of C8: the tip \<open>T\<close> of height 1, and the tip \<open>E\<close> of height 2.\<close>

theorem deleteLastBlock_genesis_guard_witness:
  "height (heap demo_world (lastBlock demo_world)) = 1 \<and>
   fst (deleteLastBlock demo_modules demo_world)
     = Callback (Some (ErrString ''Cannot delete genesis block''), None) \<and>
   db (snd (deleteLastBlock demo_modules demo_world)) = db demo_world \<and>
   mem (snd (deleteLastBlock demo_modules demo_world)) = mem demo_world \<and>
   lastBlock (snd (deleteLastBlock demo_modules demo_world)) = lastBlock demo_world \<and>
   heap (snd (deleteLastBlock demo_modules demo_world)) = heap demo_world \<and>
   logger (snd (deleteLastBlock demo_modules demo_world))
     = [(Warn, [LText ''Deleting last block'', LBlock blockT])] \<and>
   height (heap (demo_world\<lparr>lastBlock := 2\<rparr>) (lastBlock (demo_world\<lparr>lastBlock := 2\<rparr>))) = 2 \<and>
   fst (deleteLastBlock demo_modules (demo_world\<lparr>lastBlock := 2\<rparr>))
     \<noteq> Callback (Some (ErrString ''Cannot delete genesis block''), None)"
  using deleteLastBlock_genesis_guard [where w = demo_world and M = demo_modules]
        deleteLastBlock_genesis_guard [where w = "demo_world\<lparr>lastBlock := 2\<rparr>" and M = demo_modules]
  by (simp add: write_log_def demo_defs Let_def)



text \<open>
  C10. When popLastBlock has committed and handed over the parent, deleteLastBlock
  reports success with the parent and sets the Last-Block Register to it whatever
  receiveTransactions answers; an error of receiveTransactions only adds an entry to
  the log. The callback's arguments are the same in both cases.
\<close>

theorem deleteLastBlock_swallows_pool_error:
  fixes M :: "('a, 'd, 'm) modules" and w :: "('d, 'm) world"
  defines "w0 \<equiv> write_log Warn [LText ''Deleting last block'', LBlock (heap w (lastBlock w))] w"
  assumes "height (heap w (lastBlock w)) \<noteq> 1"
      and "popLastBlock M (lastBlock w) w0 = (Callback newLastBlock, wp)"
      and "call (transactions_receiveTransactions M
                   (transactions (heap (reverse_transactions (lastBlock w) wp) (lastBlock w))) False)
                (reverse_transactions (lastBlock w) wp) = (err, wr)"
  shows "fst (deleteLastBlock M w) = Callback (None, Some newLastBlock) \<and>
         snd (deleteLastBlock M w) =
           (if isError err
            then write_log Error [LText ''Error adding transactions'', LErr err] wr
            else wr)\<lparr>lastBlock := newLastBlock\<rparr>"
proof -
  have l: "lastBlock w0 = lastBlock w" and h: "heap w0 = heap w"
    by (simp_all add: w0_def write_log_def)
  show ?thesis
    using assms(2-4) l h
    by (simp add: deleteLastBlock_def Let_def w0_def [symmetric])
qed

text \<open>Witness of C10: the tip is \<open>B\<close> and the pool rejects the transactions.\<close>

theorem deleteLastBlock_swallows_pool_error_witness:
  "height (heap (demo_world\<lparr>lastBlock := 1\<rparr>) 1) \<noteq> 1 \<and>
   fst (popLastBlock pool_rejects 1
          (write_log Warn [LText ''Deleting last block'', LBlock (heap (demo_world\<lparr>lastBlock := 1\<rparr>) 1)]
             (demo_world\<lparr>lastBlock := 1\<rparr>))) = Callback 7 \<and>
   fst (deleteLastBlock pool_rejects (demo_world\<lparr>lastBlock := 1\<rparr>)) = Callback (None, Some 7) \<and>
   lastBlock (snd (deleteLastBlock pool_rejects (demo_world\<lparr>lastBlock := 1\<rparr>))) = 7 \<and>
   heap (snd (deleteLastBlock pool_rejects (demo_world\<lparr>lastBlock := 1\<rparr>))) 7 = blockT \<and>
   unconfirmed (mem (snd (deleteLastBlock pool_rejects (demo_world\<lparr>lastBlock := 1\<rparr>)))) = [demo_txp] \<and>
   last (logger (snd (deleteLastBlock pool_rejects (demo_world\<lparr>lastBlock := 1\<rparr>))))
     = (Error, [LText ''Error adding transactions'', LErr (Some (ErrString ''pool is full''))])"
  using deleteLastBlock_swallows_pool_error
          [where w = "demo_world\<lparr>lastBlock := 1\<rparr>" and M = pool_rejects and newLastBlock = 7
             and wp = "snd (popLastBlock pool_rejects 1
                 (write_log Warn [LText ''Deleting last block'', LBlock (heap (demo_world\<lparr>lastBlock := 1\<rparr>) 1)]
                    (demo_world\<lparr>lastBlock := 1\<rparr>)))"
             and err = "Some (ErrString ''pool is full'')"
             and wr = "snd (call (transactions_receiveTransactions pool_rejects
                   (transactions (heap (reverse_transactions 1
                      (snd (popLastBlock pool_rejects 1
                         (write_log Warn [LText ''Deleting last block'', LBlock (heap (demo_world\<lparr>lastBlock := 1\<rparr>) 1)]
                            (demo_world\<lparr>lastBlock := 1\<rparr>))))) 1)) False)
                   (reverse_transactions 1
                      (snd (popLastBlock pool_rejects 1
                         (write_log Warn [LText ''Deleting last block'', LBlock (heap (demo_world\<lparr>lastBlock := 1\<rparr>) 1)]
                            (demo_world\<lparr>lastBlock := 1\<rparr>))))))"]
  by (simp add: chain_defs spec_defs demo_defs Let_def)

end
